theory Spec2Isabelle
  imports Main "HOL-Library.AList"
begin

section \<open>Python errors and dictionaries\<close>

text \<open>
  Every exception the modelled code can raise is a value; a computation that may raise
  returns \<open>error + 'a\<close>, with \<open>Inl\<close> for the exception.
\<close>

datatype error =
    KeyError string
  | ValueError
  | InvalidArgumentError
  | AssertionError
  | StopIteration
  | IndexError
  | ZeroDivisionError
  | FileNotFoundError
  | TypeError

definition bnd :: "error + 'a \<Rightarrow> ('a \<Rightarrow> error + 'b) \<Rightarrow> error + 'b" where
  "bnd m f = (case m of Inl e \<Rightarrow> Inl e | Inr x \<Rightarrow> f x)"

text \<open>\<open>d[k]\<close> on a Python dict: a missing key raises \<open>KeyError\<close>.\<close>

definition getitem :: "(string \<rightharpoonup> 'a) \<Rightarrow> string \<Rightarrow> error + 'a" where
  "getitem d k = (case d k of None \<Rightarrow> Inl (KeyError k) | Some v \<Rightarrow> Inr v)"


section \<open>TensorFlow tensors and the library operations\<close>

text \<open>
  \<open>src/data/step_map_fn.py\<close> only calls TensorFlow operations. A tensor is its dtype, its
  shape and its values. What an operation does to dtype and shape, and when it raises, is
  written out. What it does to the values (floating-point interpolation, numeric
  conversion, permutation of the elements) belongs to the library: these functions on the
  values are the fields of \<open>tf_ops\<close>, the library the mappers run on. The mapper code
  decides which operation is applied to which field, in which order, with which constants.
\<close>

datatype dtype = Float32 | Float64 | Int32 | Int64 | UInt8 | TBool

record 'c tensor =
  dtype :: dtype
  shape :: "nat list"
  content :: 'c

text \<open>
  The library on values: conversion from one dtype to another, the pixels of
  \<open>resize_with_pad\<close> for an input of the given dtype and shape and the given target height
  and width, and the elements of the transpose of a tensor of the given shape by the given
  permutation.
\<close>

record 'c tf_ops =
  cast_values :: "dtype \<Rightarrow> dtype \<Rightarrow> 'c \<Rightarrow> 'c"
  resize_with_pad_values :: "dtype \<Rightarrow> nat list \<Rightarrow> nat \<Rightarrow> nat \<Rightarrow> 'c \<Rightarrow> 'c"
  transpose_values :: "nat list \<Rightarrow> nat list \<Rightarrow> 'c \<Rightarrow> 'c"

text \<open>
  \<open>tf.cast(x, d)\<close>: a tensor that already has dtype \<open>d\<close> is returned as it is; otherwise
  the shape is kept and the values are converted.
\<close>

definition tf_cast :: "'c tf_ops \<Rightarrow> 'c tensor \<Rightarrow> dtype \<Rightarrow> 'c tensor" where
  "tf_cast lib x d =
     (if dtype x = d then x
      else \<lparr>dtype = d, shape = shape x, content = cast_values lib (dtype x) d (content x)\<rparr>)"

text \<open>
  \<open>tf.image.resize_with_pad(image, target_height, target_width)\<close>, with the default
  bilinear method: a 3-D image \<open>[height, width, channels]\<close> becomes a float32 tensor
  \<open>[target_height, target_width, channels]\<close>, a 4-D batch keeps its leading axis, and any
  other rank raises \<open>ValueError\<close>. So does an image whose height, width or channel count is
  zero, and a target size that is not positive. The resize kernel takes numeric images only:
  a bool image raises \<open>InvalidArgumentError\<close>.
\<close>

definition resize_with_pad ::
  "'c tf_ops \<Rightarrow> 'c tensor \<Rightarrow> nat \<Rightarrow> nat \<Rightarrow> error + 'c tensor" where
  "resize_with_pad lib images target_height target_width =
     (case shape images of
        [h, w, c] \<Rightarrow>
          if h = 0 \<or> w = 0 \<or> c = 0 then Inl ValueError
          else if target_height = 0 \<or> target_width = 0 then Inl ValueError
          else if dtype images = TBool then Inl InvalidArgumentError
          else Inr \<lparr>dtype = Float32, shape = [target_height, target_width, c],
                    content = resize_with_pad_values lib (dtype images) (shape images)
                                target_height target_width (content images)\<rparr>
      | [b, h, w, c] \<Rightarrow>
          if h = 0 \<or> w = 0 \<or> c = 0 then Inl ValueError
          else if target_height = 0 \<or> target_width = 0 then Inl ValueError
          else if dtype images = TBool then Inl InvalidArgumentError
          else Inr \<lparr>dtype = Float32, shape = [b, target_height, target_width, c],
                    content = resize_with_pad_values lib (dtype images) (shape images)
                                target_height target_width (content images)\<rparr>
      | _ \<Rightarrow> Inl ValueError)"

text \<open>
  \<open>tf.transpose(a, perm)\<close>: \<open>perm\<close> must be a permutation of the axes of \<open>a\<close>; axis \<open>i\<close> of
  the result is axis \<open>perm[i]\<close> of \<open>a\<close>; the dtype is kept.
\<close>

definition tf_transpose :: "'c tf_ops \<Rightarrow> 'c tensor \<Rightarrow> nat list \<Rightarrow> error + 'c tensor" where
  "tf_transpose lib a perm =
     (if length perm = length (shape a) \<and> distinct perm
         \<and> list_all (\<lambda>p. p < length (shape a)) perm
      then Inr \<lparr>dtype = dtype a, shape = map (\<lambda>p. shape a ! p) perm,
                content = transpose_values lib (shape a) perm (content a)\<rparr>
      else Inl InvalidArgumentError)"

text \<open>
  \<open>tf.reshape(x, s)\<close>: the number of elements must not change; dtype and values (the
  elements in row-major order) are kept.
\<close>

definition tf_reshape :: "'c tensor \<Rightarrow> nat list \<Rightarrow> error + 'c tensor" where
  "tf_reshape x s =
     (if prod_list (shape x) = prod_list s then Inr (x\<lparr>shape := s\<rparr>)
      else Inl InvalidArgumentError)"

text \<open>The dtype and shape of a tensor, and the schema of a dict of tensors.\<close>

definition tensor_spec :: "'c tensor \<Rightarrow> dtype \<times> nat list" where
  "tensor_spec t = (dtype t, shape t)"

definition schema :: "(string \<rightharpoonup> 'c tensor) \<Rightarrow> (string \<rightharpoonup> dtype \<times> nat list)" where
  "schema d = (\<lambda>k. map_option tensor_spec (d k))"


section \<open>The step mappers of \<open>src/data/step_map_fn.py\<close>\<close>

text \<open>
  A step is a dict with the keys \<open>observation\<close>, \<open>action\<close> (both dicts of tensors),
  \<open>is_first\<close>, \<open>is_last\<close> and \<open>is_terminal\<close>. The native step and the transformed step have
  this same outer layout, so both are values of one record type; the inner dicts are maps
  from field names, since the field names differ between sources.
\<close>

record 'c step =
  observation :: "string \<rightharpoonup> 'c tensor"
  action :: "string \<rightharpoonup> 'c tensor"
  is_first :: "'c tensor"
  is_last :: "'c tensor"
  is_terminal :: "'c tensor"

definition TARGET_WIDTH :: nat where
  "TARGET_WIDTH = 160"

definition TARGET_HEIGHT :: nat where
  "TARGET_HEIGHT = 128"

definition jaco_step_map_fn :: "'c tf_ops \<Rightarrow> 'c step \<Rightarrow> error + 'c step" where
  "jaco_step_map_fn lib step =
     bnd (getitem (observation step) ''image'') (\<lambda>img.
     bnd (resize_with_pad lib img TARGET_HEIGHT TARGET_WIDTH) (\<lambda>resized.
     bnd (tf_transpose lib (tf_cast lib resized UInt8) [2, 0, 1]) (\<lambda>img'.
     bnd (getitem (observation step) ''natural_language_embedding'') (\<lambda>embedding.
     bnd (getitem (action step) ''world_vector'') (\<lambda>a1.
     bnd (getitem (action step) ''terminate_episode'') (\<lambda>a2.
     bnd (getitem (action step) ''gripper_closedness_action'') (\<lambda>a3.
     Inr \<lparr>observation =
            [''image'' \<mapsto> img', ''natural_language_embedding'' \<mapsto> embedding],
          action =
            [''first_three'' \<mapsto> tf_cast lib a1 Float32,
             ''middle_three'' \<mapsto> tf_cast lib a2 Float32,
             ''final_one'' \<mapsto> tf_cast lib a3 Float32],
          is_first = is_first step,
          is_last = is_last step,
          is_terminal = is_terminal step\<rparr>)))))))"

definition berkeley_cable_routing_step_map_fn :: "'c tf_ops \<Rightarrow> 'c step \<Rightarrow> error + 'c step" where
  "berkeley_cable_routing_step_map_fn lib step =
     bnd (getitem (observation step) ''image'') (\<lambda>img.
     bnd (resize_with_pad lib img TARGET_HEIGHT TARGET_WIDTH) (\<lambda>resized.
     bnd (tf_transpose lib (tf_cast lib resized UInt8) [2, 0, 1]) (\<lambda>img'.
     bnd (getitem (observation step) ''natural_language_embedding'') (\<lambda>embedding.
     bnd (getitem (action step) ''world_vector'') (\<lambda>a1.
     bnd (getitem (action step) ''rotation_delta'') (\<lambda>a2.
     bnd (getitem (action step) ''terminate_episode'') (\<lambda>a3.
     bnd (tf_reshape a3 [1]) (\<lambda>a3'.
     Inr \<lparr>observation =
            [''image'' \<mapsto> img', ''natural_language_embedding'' \<mapsto> embedding],
          action =
            [''first_three'' \<mapsto> tf_cast lib a1 Float32,
             ''middle_three'' \<mapsto> tf_cast lib a2 Float32,
             ''final_one'' \<mapsto> a3'],
          is_first = is_first step,
          is_last = is_last step,
          is_terminal = is_terminal step\<rparr>))))))))"

definition bridge_step_map_fn :: "'c tf_ops \<Rightarrow> 'c step \<Rightarrow> error + 'c step" where
  "bridge_step_map_fn lib step =
     bnd (getitem (observation step) ''image'') (\<lambda>img.
     bnd (resize_with_pad lib img TARGET_HEIGHT TARGET_WIDTH) (\<lambda>resized.
     bnd (tf_transpose lib (tf_cast lib resized UInt8) [2, 0, 1]) (\<lambda>img'.
     bnd (getitem (observation step) ''natural_language_embedding'') (\<lambda>embedding.
     bnd (getitem (action step) ''world_vector'') (\<lambda>a1.
     bnd (getitem (action step) ''rotation_delta'') (\<lambda>a2.
     bnd (getitem (action step) ''open_gripper'') (\<lambda>a3.
     Inr \<lparr>observation =
            [''image'' \<mapsto> img', ''natural_language_embedding'' \<mapsto> embedding],
          action =
            [''first_three'' \<mapsto> tf_cast lib a1 Float32,
             ''middle_three'' \<mapsto> tf_cast lib a2 Float32,
             ''final_one'' \<mapsto> tf_cast lib a3 Float32],
          is_first = is_first step,
          is_last = is_last step,
          is_terminal = is_terminal step\<rparr>)))))))"

definition toto_step_map_fn :: "'c tf_ops \<Rightarrow> 'c step \<Rightarrow> error + 'c step" where
  "toto_step_map_fn lib step =
     bnd (getitem (observation step) ''image'') (\<lambda>img.
     bnd (resize_with_pad lib img TARGET_HEIGHT TARGET_WIDTH) (\<lambda>resized.
     bnd (tf_transpose lib (tf_cast lib resized UInt8) [2, 0, 1]) (\<lambda>img'.
     bnd (getitem (observation step) ''natural_language_embedding'') (\<lambda>embedding.
     bnd (getitem (action step) ''world_vector'') (\<lambda>a1.
     bnd (getitem (action step) ''rotation_delta'') (\<lambda>a2.
     bnd (getitem (action step) ''open_gripper'') (\<lambda>a3.
     Inr \<lparr>observation =
            [''image'' \<mapsto> img', ''natural_language_embedding'' \<mapsto> embedding],
          action =
            [''first_three'' \<mapsto> tf_cast lib a1 Float32,
             ''middle_three'' \<mapsto> tf_cast lib a2 Float32,
             ''final_one'' \<mapsto> tf_cast lib a3 Float32],
          is_first = is_first step,
          is_last = is_last step,
          is_terminal = is_terminal step\<rparr>)))))))"

text \<open>
  The four sources, the mapper of each, and the native action fields each mapper reads for
  the groups \<open>first_three\<close>, \<open>middle_three\<close> and \<open>final_one\<close>, in this order.
\<close>

datatype source = Jaco | BerkeleyCableRouting | Bridge | Toto

fun step_map_fn :: "source \<Rightarrow> 'c tf_ops \<Rightarrow> 'c step \<Rightarrow> error + 'c step" where
  "step_map_fn Jaco = jaco_step_map_fn"
| "step_map_fn BerkeleyCableRouting = berkeley_cable_routing_step_map_fn"
| "step_map_fn Bridge = bridge_step_map_fn"
| "step_map_fn Toto = toto_step_map_fn"

fun native_fields :: "source \<Rightarrow> string \<times> string \<times> string" where
  "native_fields Jaco = (''world_vector'', ''terminate_episode'', ''gripper_closedness_action'')"
| "native_fields BerkeleyCableRouting = (''world_vector'', ''rotation_delta'', ''terminate_episode'')"
| "native_fields Bridge = (''world_vector'', ''rotation_delta'', ''open_gripper'')"
| "native_fields Toto = (''world_vector'', ''rotation_delta'', ''open_gripper'')"


section \<open>\<open>CombinedDataset\<close> of \<open>src/data/multiple_dataset.py\<close>\<close>

text \<open>
  The constructor obtains every source from \<open>build_dataset\<close> of \<open>data/data_loader.py\<close>,
  which is not among the sources; it is a parameter of the model. It loads a dataset from
  storage, so it may raise. It returns the trajectory dataset and the trajectory transform,
  of which the constructor reads \<open>expected_tensor_spec\<close> only.
\<close>

record 'spec trajectory_transform =
  expected_tensor_spec :: 'spec

type_synonym ('ds, 'spec) build_dataset =
  "string \<Rightarrow> string \<Rightarrow> int \<Rightarrow> error + ('ds \<times> 'spec trajectory_transform)"

text \<open>
  The operations of \<open>tf.data\<close> the class uses: \<open>Dataset.sample_from_datasets\<close>, \<open>iter\<close>
  and \<open>next\<close> on the iterator (\<open>None\<close> stands for \<open>StopIteration\<close>). The iterator state
  includes the state of the random sampling.
\<close>

record ('ds, 'it, 'ex) tf_data =
  sample_from_datasets :: "'ds list \<Rightarrow> 'ds"
  iter :: "'ds \<Rightarrow> 'it"
  next_element :: "'it \<Rightarrow> ('ex \<times> 'it) option"

record 'it CombinedDataset =
  combined_dataset_it :: 'it

definition builder_dir_list :: "string list" where
  "builder_dir_list =
     [''gs://gresearch/robotics/toto/0.1.0'', ''gs://gresearch/robotics/bridge/0.1.0'']"

definition dataset_name_list :: "string list" where
  "dataset_name_list = [''toto'', ''bridge'']"

text \<open>
  The first loop of \<open>__init__\<close>, over \<open>enumerate(builder_dir_list)\<close>. The two lists it
  appends to are kept as one list of pairs.
\<close>

fun load_datasets ::
  "('ds, 'spec) build_dataset \<Rightarrow> int \<Rightarrow> (nat \<times> string) list
     \<Rightarrow> error + ('ds \<times> 'spec trajectory_transform) list" where
  "load_datasets build_dataset time_sequence_length [] = Inr []"
| "load_datasets build_dataset time_sequence_length ((idx, builder_dir) # rest) =
     (if idx < length dataset_name_list then
        bnd (build_dataset (dataset_name_list ! idx) builder_dir time_sequence_length) (\<lambda>built.
        bnd (load_datasets build_dataset time_sequence_length rest) (\<lambda>others.
        Inr (built # others)))
      else Inl IndexError)"

definition CombinedDataset_init ::
  "('ds, 'it, 'ex) tf_data \<Rightarrow> ('ds, 'spec) build_dataset \<Rightarrow> int
     \<Rightarrow> error + 'it CombinedDataset" where
  "CombinedDataset_init tf build_dataset time_sequence_length =
     bnd (load_datasets build_dataset time_sequence_length (enumerate 0 builder_dir_list))
       (\<lambda>built.
     let trajectory_dataset_list = map fst built;
         dataset_trajectory_transform_list = map snd built
     in case dataset_trajectory_transform_list of
          [] \<Rightarrow> Inl IndexError
        | template_dataset_trajectory_transform # _ \<Rightarrow>
            if list_all (\<lambda>dataset_trajectory_transform.
                  expected_tensor_spec dataset_trajectory_transform
                    = expected_tensor_spec template_dataset_trajectory_transform)
                 dataset_trajectory_transform_list
            then Inr \<lparr>combined_dataset_it =
                        iter tf (sample_from_datasets tf trajectory_dataset_list)\<rparr>
            else Inl AssertionError)"

text \<open>\<open>__len__\<close> returns \<open>int(1e8)\<close>.\<close>

definition CombinedDataset_len :: "'it CombinedDataset \<Rightarrow> int" where
  "CombinedDataset_len self = 100000000"

text \<open>
  An example drawn from the stream is a dict whose values are tensors or dicts of tensors.
  \<open>tf_to_torch\<close> (of \<open>data/data_loader.py\<close>, a parameter here) converts each tensor.
\<close>

datatype 'a entry = Leaf 'a | Nested "(string \<times> 'a) list"

type_synonym 'a example = "(string \<times> 'a entry) list"

definition convert_example :: "('a \<Rightarrow> 'b) \<Rightarrow> 'a example \<Rightarrow> 'b example" where
  "convert_example tf_to_torch example =
     map (\<lambda>(key, val). case val of
            Nested d \<Rightarrow> (key, Nested (map (\<lambda>(subk, subv). (subk, tf_to_torch subv)) d))
          | Leaf t \<Rightarrow> (key, Leaf (tf_to_torch t))) example"

text \<open>
  \<open>__getitem__(idx)\<close> returns its result (or the exception) and the dataset object with the
  advanced iterator.
\<close>

definition CombinedDataset_getitem ::
  "('ds, 'it, 'a example) tf_data \<Rightarrow> ('a \<Rightarrow> 'b) \<Rightarrow> 'it CombinedDataset \<Rightarrow> int
     \<Rightarrow> (error + 'b example) \<times> 'it CombinedDataset" where
  "CombinedDataset_getitem tf tf_to_torch self idx =
     (case next_element tf (combined_dataset_it self) of
        None \<Rightarrow> (Inl StopIteration, self)
      | Some (example, it') \<Rightarrow>
          (Inr (convert_example tf_to_torch example), self\<lparr>combined_dataset_it := it'\<rparr>))"


section \<open>\<open>Trainer.retrieve_single_timestep\<close> of \<open>src/train.py\<close>\<close>

text \<open>
  A torch tensor with its data: the sizes of its axes and its elements in row-major order.
  It is well formed when the number of elements is the product of the sizes.
\<close>

record 'a torch_tensor =
  dims :: "nat list"
  elems :: "'a list"

definition well_formed :: "'a torch_tensor \<Rightarrow> bool" where
  "well_formed v \<longleftrightarrow> length (elems v) = prod_list (dims v)"

text \<open>
  \<open>v[:, idx]\<close>: needs two axes at least; a negative index counts from the end of the second
  axis, an index out of its range raises \<open>IndexError\<close>.
\<close>

definition select_second_axis :: "'a torch_tensor \<Rightarrow> int \<Rightarrow> error + 'a torch_tensor" where
  "select_second_axis v idx =
     (case dims v of
        b # t # rest \<Rightarrow>
          (let j = (if idx < 0 then idx + int t else idx); r = prod_list rest
           in if 0 \<le> j \<and> j < int t
              then Inr \<lparr>dims = b # rest,
                        elems = concat (map (\<lambda>i. take r (drop ((i * t + nat j) * r) (elems v)))
                                          [0..<b])\<rparr>
              else Inl IndexError)
      | _ \<Rightarrow> Inl IndexError)"

text \<open>
  The loop \<open>for k, v in dict_obj.items(): dict_obj_return[k] = v[:, idx]\<close>; a dict is the
  list of its items in insertion order, and assignment to a key is \<open>AList.update\<close>.
\<close>

fun retrieve_loop ::
  "(string \<times> 'a torch_tensor) list \<Rightarrow> int \<Rightarrow> (string \<times> 'a torch_tensor) list
     \<Rightarrow> error + (string \<times> 'a torch_tensor) list" where
  "retrieve_loop [] idx dict_obj_return = Inr dict_obj_return"
| "retrieve_loop ((k, v) # items) idx dict_obj_return =
     bnd (select_second_axis v idx) (\<lambda>v'.
     retrieve_loop items idx (AList.update k v' dict_obj_return))"

definition retrieve_single_timestep ::
  "(string \<times> 'a torch_tensor) list \<Rightarrow> int \<Rightarrow> error + (string \<times> 'a torch_tensor) list" where
  "retrieve_single_timestep dict_obj idx = retrieve_loop dict_obj idx dict_obj"


section \<open>\<open>Trainer\<close> of \<open>src/train.py\<close>\<close>

subsection \<open>Strings and paths\<close>

text \<open>\<open>str(n)\<close> for a Python int: decimal digits, with a minus sign when negative.\<close>

definition digit_char :: "nat \<Rightarrow> char" where
  "digit_char d = ''0123456789'' ! d"

fun str_nat :: "nat \<Rightarrow> string" where
  "str_nat n = (if n < 10 then [digit_char n] else str_nat (n div 10) @ [digit_char (n mod 10)])"

declare str_nat.simps [simp del]

definition str_int :: "int \<Rightarrow> string" where
  "str_int i = (if i < 0 then CHR ''-'' # str_nat (nat (- i)) else str_nat (nat i))"

text \<open>
  \<open>os.path.join(path, *p)\<close> on POSIX: a component that starts with a slash replaces what
  came before; otherwise it is appended, after a slash unless the path so far is empty or
  already ends with one.
\<close>

fun path_join :: "string \<Rightarrow> string list \<Rightarrow> string" where
  "path_join path [] = path"
| "path_join path (b # p) =
     path_join
       (if b \<noteq> [] \<and> hd b = CHR ''/'' then b
        else if path = [] \<or> last path = CHR ''/'' then path @ b
        else path @ ''/'' @ b) p"

subsection \<open>Configuration and construction\<close>

text \<open>
  The entries of the configuration that \<open>train\<close> and \<open>make_log_dir\<close> branch on; the values
  are those in force after \<open>utils.init_distributed_mode\<close>.
\<close>

record args =
  distributed :: bool
  resume :: bool
  epochs :: int
  val_interval :: int
  log_dir :: string

record trainer =
  args :: args
  checkpoint_dir :: string
  tensorboard_dir :: string
  train_name :: string
  train_step :: nat

text \<open>
  \<open>make_log_dir\<close>: the run identifier is \<open>str(time.time()).split(".")[0]\<close>, the whole
  seconds \<open>now\<close> of the clock in decimal. The result is the value stored in
  \<open>self.train_name\<close> and the two directories returned; the creation of the directories is
  left out.
\<close>

definition make_log_dir :: "string \<Rightarrow> nat \<Rightarrow> string \<times> string \<times> string" where
  "make_log_dir log_directory now =
     (let train_name = str_nat now;
          checkpoint_dir = path_join log_directory [train_name];
          tensorboard_dir = path_join log_directory [''tensorboard_logs'', train_name]
      in (train_name, checkpoint_dir, tensorboard_dir))"

text \<open>The part of \<open>__init__\<close> that \<open>train\<close> depends on.\<close>

definition Trainer_init :: "args \<Rightarrow> nat \<Rightarrow> trainer" where
  "Trainer_init config now =
     (case make_log_dir (log_dir config) now of
        (name, checkpoint_directory, tensorboard_directory) \<Rightarrow>
          \<lparr>args = config, checkpoint_dir = checkpoint_directory,
           tensorboard_dir = tensorboard_directory, train_name = name, train_step = 0\<rparr>)"

subsection \<open>Checkpoints, events and the learning operations\<close>

text \<open>
  The network, the optimizer and the scheduler are library objects; each is represented by
  the value its \<open>state_dict()\<close> returns, and \<open>load_state_dict\<close> replaces that value. A
  checkpoint is the dict handed to \<open>utils.save_on_master\<close>, as the list of its items.
\<close>

datatype ('m, 'o, 's) ckval =
    ModelState 'm
  | OptimizerState 'o
  | SchedulerState 's
  | EpochIndex int

type_synonym ('m, 'o, 's) checkpoint = "(string \<times> ('m, 'o, 's) ckval) list"

text \<open>
  What one process does that is visible outside it, in program order: the entry into the
  loop body for epoch \<open>e\<close> (\<open>network.train()\<close> and the progress bar over the dataloader),
  \<open>writer_train.add_scalar(tag, global_step, scalar_value)\<close>, the call
  \<open>utils.save_on_master(checkpoint, checkpoint_filename)\<close>, and
  \<open>torch.distributed.barrier()\<close>.
\<close>

datatype 'v scalar = Measured 'v | EpochNumber int

datatype ('m, 'o, 's, 'v) event =
    EpochBegin int
  | AddScalar string nat "'v scalar"
  | SaveOnMaster "('m, 'o, 's) checkpoint" string
  | Barrier

text \<open>
  The library side of training: the construction of network, optimizer and scheduler (the
  scheduler's constructor also sets the learning rate of the optimizer), one pass of
  \<open>zero_grad\<close>, forward, loss, \<open>backward\<close> and \<open>optimizer.step()\<close> on a batch, which
  yields the loss, the learning rate read from the optimizer, and \<open>scheduler.step()\<close>.
\<close>

record ('m, 'o, 's, 'b, 'v) learner =
  new_network :: 'm
  new_optimizer :: "'m \<Rightarrow> 'o"
  new_scheduler :: "'o \<Rightarrow> 'o \<times> 's"
  train_on_batch :: "'m \<Rightarrow> 'o \<Rightarrow> 'b \<Rightarrow> 'm \<times> 'o \<times> 'v"
  current_lr :: "'o \<Rightarrow> 'v"
  scheduler_step :: "'o \<Rightarrow> 's \<Rightarrow> 'o \<times> 's"

text \<open>
  What a process finds around it: whether \<open>utils.is_main_process()\<close> holds, the batches its
  dataloader yields in the pass of epoch \<open>e\<close>, and what \<open>torch.load\<close> finds at
  \<open>resume_from_checkpoint\<close> (\<open>None\<close>: no such file).
\<close>

record ('m, 'o, 's, 'b) process_env =
  is_main_process :: bool
  dataloader :: "int \<Rightarrow> 'b list"
  checkpoint_file :: "('m, 'o, 's) checkpoint option"

record ('m, 'o, 's, 'v) run_state =
  trainer_obj :: trainer
  network :: 'm
  optimizer :: 'o
  scheduler :: 's
  trace :: "('m, 'o, 's, 'v) event list"

subsection \<open>Resuming\<close>

definition checkpoint_get ::
  "('m, 'o, 's) checkpoint \<Rightarrow> string \<Rightarrow> error + ('m, 'o, 's) ckval" where
  "checkpoint_get checkpoint k =
     (case map_of checkpoint k of None \<Rightarrow> Inl (KeyError k) | Some v \<Rightarrow> Inr v)"

text \<open>
  The three \<open>load_state_dict\<close> calls of the resume branch, in the order of the source; an
  entry of the wrong kind makes \<open>load_state_dict\<close> raise.
\<close>

definition load_state_dicts ::
  "('m, 'o, 's) checkpoint \<Rightarrow> error + ('m \<times> 'o \<times> 's)" where
  "load_state_dicts checkpoint =
     bnd (checkpoint_get checkpoint ''model_state_dict'') (\<lambda>v1.
     bnd (case v1 of ModelState m \<Rightarrow> Inr m | _ \<Rightarrow> Inl TypeError) (\<lambda>m.
     bnd (checkpoint_get checkpoint ''optimizer_state_dict'') (\<lambda>v2.
     bnd (case v2 of OptimizerState opt \<Rightarrow> Inr opt | _ \<Rightarrow> Inl TypeError) (\<lambda>opt.
     bnd (checkpoint_get checkpoint ''scheduler_state_dict'') (\<lambda>v3.
     bnd (case v3 of SchedulerState s \<Rightarrow> Inr s | _ \<Rightarrow> Inl TypeError) (\<lambda>s.
     Inr (m, opt, s)))))))"

text \<open>\<open>checkpoint["epoch"]\<close>, used as the first argument of \<open>range\<close>.\<close>

definition stored_epoch :: "('m, 'o, 's) checkpoint \<Rightarrow> error + int" where
  "stored_epoch checkpoint =
     bnd (checkpoint_get checkpoint ''epoch'') (\<lambda>v.
     case v of EpochIndex e \<Rightarrow> Inr e | _ \<Rightarrow> Inl TypeError)"

text \<open>\<open>range(a, b)\<close> on ints.\<close>

definition py_range :: "int \<Rightarrow> int \<Rightarrow> int list" where
  "py_range a b = [a..b - 1]"

subsection \<open>The epoch loop\<close>

text \<open>The inner loop over the batches of one pass of the dataloader.\<close>

fun train_batches ::
  "('m, 'o, 's, 'b, 'v) learner \<Rightarrow> bool \<Rightarrow> int \<Rightarrow> 'b list
     \<Rightarrow> ('m, 'o, 's, 'v) run_state \<Rightarrow> ('m, 'o, 's, 'v) run_state" where
  "train_batches L is_main e [] st = st"
| "train_batches L is_main e (item # items) st =
     (case train_on_batch L (network st) (optimizer st) item of
        (network', optimizer', loss) \<Rightarrow>
          train_batches L is_main e items
            (st\<lparr>network := network',
                optimizer := optimizer',
                trace := trace st @
                  (if is_main then
                     [AddScalar ''loss_ce'' (train_step (trainer_obj st)) (Measured loss),
                      AddScalar ''epoch'' (train_step (trainer_obj st)) (EpochNumber e),
                      AddScalar ''lr'' (train_step (trainer_obj st))
                        (Measured (current_lr L optimizer'))]
                   else []),
                trainer_obj := (trainer_obj st)\<lparr>train_step := train_step (trainer_obj st) + 1\<rparr>\<rparr>))"

text \<open>The dict literal built at a checkpoint epoch.\<close>

definition make_checkpoint ::
  "('m, 'o, 's, 'v) run_state \<Rightarrow> int \<Rightarrow> ('m, 'o, 's) checkpoint" where
  "make_checkpoint st e =
     [(''model_state_dict'', ModelState (network st)),
      (''optimizer_state_dict'', OptimizerState (optimizer st)),
      (''scheduler_state_dict'', SchedulerState (scheduler st)),
      (''epoch'', EpochIndex e)]"

text \<open>
  The body of \<open>for e in range(epoch_start, self.args["epochs"])\<close>. The test
  \<open>(e + 1) % val_interval == 0\<close> raises \<open>ZeroDivisionError\<close> when \<open>val_interval\<close> is 0;
  otherwise Python's \<open>%\<close> on ints is \<open>mod\<close>.
\<close>

definition train_epoch ::
  "('m, 'o, 's, 'b, 'v) learner \<Rightarrow> ('m, 'o, 's, 'b) process_env
     \<Rightarrow> ('m, 'o, 's, 'v) run_state \<Rightarrow> int \<Rightarrow> error + ('m, 'o, 's, 'v) run_state" where
  "train_epoch L env st e =
     (let st1 = train_batches L (is_main_process env) e (dataloader env e)
                  (st\<lparr>trace := trace st @ [EpochBegin e]\<rparr>)
      in if val_interval (args (trainer_obj st1)) = 0 then Inl ZeroDivisionError
         else
           (let st2 =
                  (if (e + 1) mod val_interval (args (trainer_obj st1)) = 0 then
                     (let checkpoint_filename =
                            path_join (checkpoint_dir (trainer_obj st1))
                              [str_int e @ ''-checkpoint.pth''];
                          checkpoint = make_checkpoint st1 e
                      in st1\<lparr>trace := trace st1
                              @ [SaveOnMaster checkpoint checkpoint_filename]
                              @ (if distributed (args (trainer_obj st1)) then [Barrier, Barrier]
                                 else [])\<rparr>)
                   else st1)
            in case scheduler_step L (optimizer st2) (scheduler st2) of
                 (optimizer', scheduler') \<Rightarrow>
                   Inr (st2\<lparr>optimizer := optimizer', scheduler := scheduler'\<rparr>)))"

fun train_loop ::
  "('m, 'o, 's, 'b, 'v) learner \<Rightarrow> ('m, 'o, 's, 'b) process_env \<Rightarrow> int list
     \<Rightarrow> ('m, 'o, 's, 'v) run_state \<Rightarrow> error + ('m, 'o, 's, 'v) run_state" where
  "train_loop L env [] st = Inr st"
| "train_loop L env (e # es) st = bnd (train_epoch L env st e) (train_loop L env es)"

text \<open>
  \<open>Trainer.train\<close>. Both branches of \<open>if self.args["distributed"]\<close> build optimizer and
  scheduler and load the three state dicts in the same way; the wrapping of the network in
  \<open>DistributedDataParallel\<close> does not change its \<open>state_dict()\<close>.
\<close>

definition train ::
  "('m, 'o, 's, 'b, 'v) learner \<Rightarrow> ('m, 'o, 's, 'b) process_env \<Rightarrow> trainer
     \<Rightarrow> error + ('m, 'o, 's, 'v) run_state" where
  "train L env self =
     (let network0 = new_network L in
      bnd (if resume (args self) then
             (case checkpoint_file env of
                None \<Rightarrow> Inl FileNotFoundError
              | Some c \<Rightarrow> Inr (Some c))
           else Inr None) (\<lambda>checkpoint.
      bnd (if distributed (args self) then
             (case new_scheduler L (new_optimizer L network0) of
                (optimizer0, scheduler0) \<Rightarrow>
                  (case checkpoint of
                     Some c \<Rightarrow> load_state_dicts c
                   | None \<Rightarrow> Inr (network0, optimizer0, scheduler0)))
           else
             (case new_scheduler L (new_optimizer L network0) of
                (optimizer0, scheduler0) \<Rightarrow>
                  (case checkpoint of
                     Some c \<Rightarrow> load_state_dicts c
                   | None \<Rightarrow> Inr (network0, optimizer0, scheduler0)))) (\<lambda>(net, opt, sched).
      bnd (case checkpoint of Some c \<Rightarrow> stored_epoch c | None \<Rightarrow> Inr 0) (\<lambda>epoch_start.
      train_loop L env (py_range epoch_start (epochs (args self)))
        \<lparr>trainer_obj = self, network = net, optimizer = opt, scheduler = sched,
         trace = []\<rparr>))))"

subsection \<open>Reading a trace\<close>

definition epochs_entered :: "('m, 'o, 's, 'v) event list \<Rightarrow> int list" where
  "epochs_entered tr = concat (map (\<lambda>ev. case ev of EpochBegin e \<Rightarrow> [e] | _ \<Rightarrow> []) tr)"

definition checkpoints_saved ::
  "('m, 'o, 's, 'v) event list \<Rightarrow> (('m, 'o, 's) checkpoint \<times> string) list" where
  "checkpoints_saved tr =
     concat (map (\<lambda>ev. case ev of SaveOnMaster c f \<Rightarrow> [(c, f)] | _ \<Rightarrow> []) tr)"

text \<open>
  What is compared of a saved checkpoint: the keys of the dict in order, the value under
  \<open>epoch\<close>, and the file name.
\<close>

definition checkpoint_summary ::
  "('m, 'o, 's) checkpoint \<times> string
     \<Rightarrow> string list \<times> ('m, 'o, 's) ckval option \<times> string" where
  "checkpoint_summary saved =
     (case saved of (c, f) \<Rightarrow> (map fst c, map_of c ''epoch'', f))"

fun is_metric_log :: "('m, 'o, 's, 'v) event \<Rightarrow> bool" where
  "is_metric_log (AddScalar tag n x) = True"
| "is_metric_log _ = False"

text \<open>
  Modelled from the spec: \<open>utils.save_on_master\<close> of \<open>util/misc.py\<close> is not among the
  sources. The spec has checkpoint writes restricted to the one elected (main) process: the
  call writes the checkpoint to the file when the calling process is the main process and
  does nothing otherwise. The result is the list of files written.
\<close>

definition save_on_master ::
  "bool \<Rightarrow> ('m, 'o, 's) checkpoint \<Rightarrow> string \<Rightarrow> (string \<times> ('m, 'o, 's) checkpoint) list" where
  "save_on_master is_main checkpoint filename =
     (if is_main then [(filename, checkpoint)] else [])"

definition checkpoint_writes ::
  "bool \<Rightarrow> ('m, 'o, 's, 'v) event list \<Rightarrow> (string \<times> ('m, 'o, 's) checkpoint) list" where
  "checkpoint_writes is_main tr =
     concat (map (\<lambda>ev. case ev of SaveOnMaster c f \<Rightarrow> save_on_master is_main c f | _ \<Rightarrow> [])
               tr)"


subsection \<open>Several processes and the barrier\<close>

text \<open>
  The events of one pass of the loop body for epoch \<open>e\<close>, as a shape: the entry into the
  epoch, metric logs (none in a process that is not the main process) and, exactly when
  \<open>e + 1\<close> is a multiple of the interval, a \<open>save_on_master\<close> call for a checkpoint of
  epoch \<open>e\<close>, followed in distributed mode by two barrier calls.
\<close>

definition epoch_segment ::
  "bool \<Rightarrow> int \<Rightarrow> bool \<Rightarrow> int \<Rightarrow> ('m, 'o, 's, 'v) event list \<Rightarrow> bool" where
  "epoch_segment dist interval is_main e seg \<longleftrightarrow>
     (\<exists>logs tail.
        seg = EpochBegin e # logs @ tail \<and>
        list_all is_metric_log logs \<and>
        (\<not> is_main \<longrightarrow> logs = []) \<and>
        (if interval dvd e + 1
         then \<exists>c f. map_of c ''epoch'' = Some (EpochIndex e) \<and>
                tail = SaveOnMaster c f # (if dist then [Barrier, Barrier] else [])
         else tail = []))"

text \<open>
  In distributed mode every process of the group runs \<open>train\<close>. A world is the list of
  the traces of the processes, the events of each in program order; a configuration gives
  for each process the number of its events it has performed.
  \<open>torch.distributed.barrier()\<close> returns in a process only when every process of the group
  has called it: a process whose next event is a barrier call waits until the next event of
  every process is one, and then all of them pass it together. Any other event a process
  performs on its own. A schedule is the order in which the processes are given a turn.
\<close>

definition at_barrier :: "('m, 'o, 's, 'v) event list \<Rightarrow> nat \<Rightarrow> bool" where
  "at_barrier tr n \<longleftrightarrow> n < length tr \<and> tr ! n = Barrier"

definition advance ::
  "('m, 'o, 's, 'v) event list list \<Rightarrow> nat list \<Rightarrow> nat \<Rightarrow> nat list" where
  "advance world pos p =
     (if p < length world \<and> pos ! p < length (world ! p) then
        (if world ! p ! (pos ! p) = Barrier then
           (if list_all2 at_barrier world pos then map Suc pos else pos)
         else pos[p := Suc (pos ! p)])
      else pos)"

fun run_schedule ::
  "('m, 'o, 's, 'v) event list list \<Rightarrow> nat list \<Rightarrow> nat list \<Rightarrow> nat list" where
  "run_schedule world [] pos = pos"
| "run_schedule world (p # schedule) pos = run_schedule world schedule (advance world pos p)"

text \<open>The number of barriers among the first \<open>n\<close> events of a trace.\<close>

definition barriers_passed :: "('m, 'o, 's, 'v) event list \<Rightarrow> nat \<Rightarrow> nat" where
  "barriers_passed tr n = length (filter (\<lambda>ev. ev = Barrier) (take n tr))"

text \<open>
  The configurations in which every process is within its trace and all processes have
  passed the same number of barriers.
\<close>

definition in_step :: "('m, 'o, 's, 'v) event list list \<Rightarrow> nat list \<Rightarrow> bool" where
  "in_step world pos \<longleftrightarrow>
     length pos = length world \<and>
     (\<forall>p<length world. pos ! p \<le> length (world ! p)) \<and>
     (\<forall>p<length world. \<forall>q<length world.
        barriers_passed (world ! p) (pos ! p) = barriers_passed (world ! q) (pos ! q))"


section \<open>Concrete inputs\<close>

text \<open>
  A deterministic instance of the \<open>tf.data\<close> operations: a dataset is the list of its
  examples, sampling from several datasets yields them one dataset after the other, and the
  iterator is the list of the examples still to come.
\<close>

definition list_tf_data :: "('ex list, 'ex list, 'ex) tf_data" where
  "list_tf_data =
     \<lparr>sample_from_datasets = concat,
      iter = (\<lambda>ds. ds),
      next_element = (\<lambda>it. case it of [] \<Rightarrow> None | x # xs \<Rightarrow> Some (x, xs))\<rparr>"

text \<open>
  A \<open>build_dataset\<close> that knows the two names \<open>toto\<close> and \<open>bridge\<close>, with the given
  expected tensor specs.
\<close>

definition sample_build :: "nat \<Rightarrow> nat \<Rightarrow> (nat list, nat) build_dataset" where
  "sample_build spec_toto spec_bridge name builder_dir trajectory_length =
     (if name = ''toto'' then Inr ([1, 2], \<lparr>expected_tensor_spec = spec_toto\<rparr>)
      else if name = ''bridge'' then Inr ([3], \<lparr>expected_tensor_spec = spec_bridge\<rparr>)
      else Inl (KeyError name))"

text \<open>
  A \<open>build_dataset\<close> that loads \<open>toto\<close> and finds nothing at the builder directory of
  any other dataset.
\<close>

definition sample_build_missing :: "(nat list, nat) build_dataset" where
  "sample_build_missing name builder_dir trajectory_length =
     (if name = ''toto'' then Inr ([1, 2], \<lparr>expected_tensor_spec = 7\<rparr>)
      else Inl FileNotFoundError)"

text \<open>
  A batch dict with a tensor of shape (2, 3, 2) and one of shape (1, 3): time-sequence
  length 3.
\<close>

definition sample_batch :: "(string \<times> nat torch_tensor) list" where
  "sample_batch =
     [(''image'', \<lparr>dims = [2, 3, 2], elems = [0, 1, 2, 3, 4, 5, 6, 7, 8, 9, 10, 11]\<rparr>),
      (''flag'', \<lparr>dims = [1, 3], elems = [20, 21, 22]\<rparr>)]"

text \<open>
  A learner whose states are numbers, a process that sees the given batches in every epoch,
  and a configuration with log directory \<open>logs\<close>.
\<close>

definition sample_learner :: "(nat, nat, nat, nat, nat) learner" where
  "sample_learner =
     \<lparr>new_network = 0,
      new_optimizer = (\<lambda>m. 10),
      new_scheduler = (\<lambda>opt. (opt, 100)),
      train_on_batch = (\<lambda>m opt b. (m + b, opt + 1, b)),
      current_lr = (\<lambda>opt. opt),
      scheduler_step = (\<lambda>opt s. (opt, s + 1))\<rparr>"

definition sample_env ::
  "bool \<Rightarrow> nat list \<Rightarrow> (nat, nat, nat) checkpoint option \<Rightarrow> (nat, nat, nat, nat) process_env" where
  "sample_env is_main batches file =
     \<lparr>is_main_process = is_main, dataloader = (\<lambda>e. batches), checkpoint_file = file\<rparr>"

definition sample_checkpoint :: "int \<Rightarrow> (nat, nat, nat) checkpoint" where
  "sample_checkpoint e =
     [(''model_state_dict'', ModelState 1),
      (''optimizer_state_dict'', OptimizerState 2),
      (''scheduler_state_dict'', SchedulerState 3),
      (''epoch'', EpochIndex e)]"

definition sample_args :: "bool \<Rightarrow> bool \<Rightarrow> int \<Rightarrow> int \<Rightarrow> args" where
  "sample_args dist res n interval =
     \<lparr>distributed = dist, resume = res, epochs = n, val_interval = interval,
      log_dir = ''logs''\<rparr>"





text \<open>
  The traces of the main process and of another process for the sample learner, one batch
  per epoch, two epochs, \<open>val_interval\<close> 2, distributed.
\<close>

definition sample_main_trace :: "(nat, nat, nat, nat) event list" where
  "sample_main_trace =
     [EpochBegin 0,
      AddScalar ''loss_ce'' 0 (Measured 5),
      AddScalar ''epoch'' 0 (EpochNumber 0),
      AddScalar ''lr'' 0 (Measured 11),
      EpochBegin 1,
      AddScalar ''loss_ce'' 1 (Measured 5),
      AddScalar ''epoch'' 1 (EpochNumber 1),
      AddScalar ''lr'' 1 (Measured 12),
      SaveOnMaster
        [(''model_state_dict'', ModelState 10),
         (''optimizer_state_dict'', OptimizerState 12),
         (''scheduler_state_dict'', SchedulerState 101),
         (''epoch'', EpochIndex 1)] ''logs/7/1-checkpoint.pth'',
      Barrier, Barrier]"

definition sample_other_trace :: "(nat, nat, nat, nat) event list" where
  "sample_other_trace =
     [EpochBegin 0, EpochBegin 1,
      SaveOnMaster
        [(''model_state_dict'', ModelState 10),
         (''optimizer_state_dict'', OptimizerState 12),
         (''scheduler_state_dict'', SchedulerState 101),
         (''epoch'', EpochIndex 1)] ''logs/7/1-checkpoint.pth'',
      Barrier, Barrier]"


section \<open>Properties of the step mappers\<close>

lemma bnd_Inr: "bnd (Inr x) f = f x"
  by (simp add: bnd_def)

lemma bnd_Inl: "bnd (Inl e) f = Inl e"
  by (simp add: bnd_def)

lemma getitem_Some: "d k = Some v \<Longrightarrow> getitem d k = Inr v"
  by (simp add: getitem_def)

lemma image_pipeline:
  assumes "shape img = [H, W, C]"
  shows "bnd (resize_with_pad lib img TARGET_HEIGHT TARGET_WIDTH) (\<lambda>resized.
         bnd (tf_transpose lib (tf_cast lib resized UInt8) [2, 0, 1]) k) =
     (if H = 0 \<or> W = 0 \<or> C = 0 then Inl ValueError
      else if dtype img = TBool then Inl InvalidArgumentError
      else k \<lparr>dtype = UInt8, shape = [C, 128, 160],
              content = transpose_values lib [128, 160, C] [2, 0, 1]
                (cast_values lib Float32 UInt8
                   (resize_with_pad_values lib (dtype img) [H, W, C] 128 160 (content img)))\<rparr>)"
  using assms
  by (simp add: resize_with_pad_def tf_transpose_def tf_cast_def TARGET_HEIGHT_def
      TARGET_WIDTH_def bnd_def)

lemmas step_map_fn_defs =
  jaco_step_map_fn_def berkeley_cable_routing_step_map_fn_def bridge_step_map_fn_def
  toto_step_map_fn_def

lemma tf_cast_spec: "tensor_spec (tf_cast lib a d) = (d, shape a)"
  by (simp add: tf_cast_def tensor_spec_def)

lemma step_map_fn_result:
  assumes "observation step ''image'' = Some img" and "shape img = [H, W, C]"
    and "native_fields src = (f1, f2, f3)"
  shows "step_map_fn src lib step = Inr out \<longleftrightarrow>
     0 < H \<and> 0 < W \<and> 0 < C \<and> dtype img \<noteq> TBool \<and>
     (\<exists>emb a1 a2 a3.
        observation step ''natural_language_embedding'' = Some emb \<and>
        action step f1 = Some a1 \<and> action step f2 = Some a2 \<and> action step f3 = Some a3 \<and>
        (src = BerkeleyCableRouting \<longrightarrow> prod_list (shape a3) = 1) \<and>
        out = \<lparr>observation =
                 [''image'' \<mapsto>
                    \<lparr>dtype = UInt8, shape = [C, 128, 160],
                     content = transpose_values lib [128, 160, C] [2, 0, 1]
                       (cast_values lib Float32 UInt8
                          (resize_with_pad_values lib (dtype img) [H, W, C] 128 160
                             (content img)))\<rparr>,
                  ''natural_language_embedding'' \<mapsto> emb],
               action =
                 [''first_three'' \<mapsto> tf_cast lib a1 Float32,
                  ''middle_three'' \<mapsto> tf_cast lib a2 Float32,
                  ''final_one'' \<mapsto>
                     (if src = BerkeleyCableRouting then a3\<lparr>shape := [1]\<rparr>
                      else tf_cast lib a3 Float32)],
               is_first = is_first step,
               is_last = is_last step,
               is_terminal = is_terminal step\<rparr>)"
  using assms(3)
  apply (cases src)
     apply (simp_all only: step_map_fn.simps step_map_fn_defs
      getitem_Some[of "observation step" "''image''" img, OF assms(1)] bnd_Inr
      image_pipeline[OF assms(2)] native_fields.simps prod.inject)
     apply (auto simp: getitem_def bnd_def tf_reshape_def split: option.splits)
  done

lemma schema_empty: "schema Map.empty = Map.empty"
  by (simp add: schema_def)

lemma schema_upd: "schema (m(k \<mapsto> v)) = (schema m)(k \<mapsto> tensor_spec v)"
  by (auto simp: schema_def)

lemma step_map_fn_action_schema:
  assumes "step_map_fn src lib step = Inr out"
    and "observation step ''image'' = Some img" and "shape img = [H, W, C]"
    and "native_fields src = (f1, f2, f3)"
  shows "\<exists>a1 a2 a3.
           action step f1 = Some a1 \<and> action step f2 = Some a2 \<and> action step f3 = Some a3 \<and>
           schema (action out) =
             [''first_three'' \<mapsto> (Float32, shape a1),
              ''middle_three'' \<mapsto> (Float32, shape a2),
              ''final_one'' \<mapsto>
                 (if src = BerkeleyCableRouting then (dtype a3, [1])
                  else (Float32, shape a3))]"
proof -
  from assms(1)[unfolded step_map_fn_result[OF assms(2-4)]]
  obtain a1 a2 a3 where
    f: "action step f1 = Some a1" "action step f2 = Some a2" "action step f3 = Some a3"
    and act: "action out =
                 [''first_three'' \<mapsto> tf_cast lib a1 Float32,
                  ''middle_three'' \<mapsto> tf_cast lib a2 Float32,
                  ''final_one'' \<mapsto>
                     (if src = BerkeleyCableRouting then a3\<lparr>shape := [1]\<rparr>
                      else tf_cast lib a3 Float32)]"
    by (elim exE conjE) (rule that; simp)
  have "schema (action out) =
             [''first_three'' \<mapsto> (Float32, shape a1),
              ''middle_three'' \<mapsto> (Float32, shape a2),
              ''final_one'' \<mapsto>
                 (if src = BerkeleyCableRouting then (dtype a3, [1])
                  else (Float32, shape a3))]"
    unfolding act
    by (cases "src = BerkeleyCableRouting")
       (simp_all add: schema_upd schema_empty tf_cast_spec, simp add: tensor_spec_def)
  with f show ?thesis by (intro exI[of _ a1] exI[of _ a2] exI[of _ a3]) simp
qed






section \<open>Properties of \<open>CombinedDataset\<close>\<close>

lemma CombinedDataset_init_unfold:
  "CombinedDataset_init tf build tsl =
     bnd (build ''toto'' ''gs://gresearch/robotics/toto/0.1.0'' tsl) (\<lambda>(d0, t0).
     bnd (build ''bridge'' ''gs://gresearch/robotics/bridge/0.1.0'' tsl) (\<lambda>(d1, t1).
     if expected_tensor_spec t1 = expected_tensor_spec t0
     then Inr \<lparr>combined_dataset_it = iter tf (sample_from_datasets tf [d0, d1])\<rparr>
     else Inl AssertionError))"
  by (simp add: CombinedDataset_init_def builder_dir_list_def dataset_name_list_def bnd_def
      split: sum.splits prod.splits)

lemma load_datasets_length:
  "load_datasets build tsl xs = Inr built \<Longrightarrow> length built = length xs"
  by (induction build tsl xs arbitrary: built rule: load_datasets.induct)
     (auto simp: bnd_def split: if_splits sum.splits)

lemma load_datasets_unfold:
  "load_datasets build tsl (enumerate 0 builder_dir_list) =
     bnd (build ''toto'' ''gs://gresearch/robotics/toto/0.1.0'' tsl) (\<lambda>b0.
     bnd (build ''bridge'' ''gs://gresearch/robotics/bridge/0.1.0'' tsl) (\<lambda>b1.
     Inr [b0, b1]))"
  by (simp add: builder_dir_list_def dataset_name_list_def bnd_def split: sum.splits)

text \<open>
  C2, as the code has it. The first loop of the constructor calls \<open>build_dataset\<close> for
  \<open>toto\<close> and then for \<open>bridge\<close>. The constructor raises if and only if one of these calls
  raises or, both having returned, the expected tensor spec of some source differs from that
  of the first source. An exception of \<open>build_dataset\<close> is the exception of the
  constructor; a differing spec gives the \<open>AssertionError\<close> of the \<open>assert\<close>. When both
  calls return and all sources have the spec of the first, the constructor returns, and its
  iterator is the iterator over \<open>sample_from_datasets\<close> of exactly the datasets built.
\<close>

theorem CombinedDataset_init_raises_iff:
  "load_datasets build tsl (enumerate 0 builder_dir_list) =
     bnd (build ''toto'' ''gs://gresearch/robotics/toto/0.1.0'' tsl) (\<lambda>b0.
     bnd (build ''bridge'' ''gs://gresearch/robotics/bridge/0.1.0'' tsl) (\<lambda>b1.
     Inr [b0, b1])) \<and>
   ((\<exists>e. CombinedDataset_init tf build tsl = Inl e) \<longleftrightarrow>
      (\<exists>e. load_datasets build tsl (enumerate 0 builder_dir_list) = Inl e) \<or>
      (\<exists>built. load_datasets build tsl (enumerate 0 builder_dir_list) = Inr built \<and>
         (\<exists>t \<in> set (map snd built).
            expected_tensor_spec t \<noteq> expected_tensor_spec (snd (hd built))))) \<and>
   (\<forall>e. load_datasets build tsl (enumerate 0 builder_dir_list) = Inl e \<longrightarrow>
      CombinedDataset_init tf build tsl = Inl e) \<and>
   (\<forall>built. load_datasets build tsl (enumerate 0 builder_dir_list) = Inr built \<longrightarrow>
      CombinedDataset_init tf build tsl =
        (if \<forall>t \<in> set (map snd built).
              expected_tensor_spec t = expected_tensor_spec (snd (hd built))
         then Inr \<lparr>combined_dataset_it = iter tf (sample_from_datasets tf (map fst built))\<rparr>
         else Inl AssertionError))"
proof -
  let ?load = "load_datasets build tsl (enumerate 0 builder_dir_list)"
  have raised: "CombinedDataset_init tf build tsl = Inl e" if "?load = Inl e" for e
    using that by (simp add: CombinedDataset_init_def bnd_Inl)
  have returned: "CombinedDataset_init tf build tsl =
        (if \<forall>t \<in> set (map snd built).
              expected_tensor_spec t = expected_tensor_spec (snd (hd built))
         then Inr \<lparr>combined_dataset_it = iter tf (sample_from_datasets tf (map fst built))\<rparr>
         else Inl AssertionError)" if l: "?load = Inr built" for built
  proof -
    have "length built = 2"
      using load_datasets_length[OF l] by (simp add: builder_dir_list_def)
    then obtain p q where b: "built = [p, q]"
      by (cases built; cases "tl built") auto
    show ?thesis
      using l unfolding b by (simp add: CombinedDataset_init_def bnd_Inr)
  qed
  have iff: "(\<exists>e. CombinedDataset_init tf build tsl = Inl e) \<longleftrightarrow>
      (\<exists>e. ?load = Inl e) \<or>
      (\<exists>built. ?load = Inr built \<and>
         (\<exists>t \<in> set (map snd built).
            expected_tensor_spec t \<noteq> expected_tensor_spec (snd (hd built))))"
  proof (cases ?load)
    case (Inl e)
    with raised[OF Inl] show ?thesis by simp
  next
    case (Inr built)
    with returned[OF Inr] show ?thesis by simp
  qed
  from load_datasets_unfold[of build tsl] iff raised returned show ?thesis
    by (intro conjI allI impI)
qed

theorem CombinedDataset_init_raises_iff_witness:
  "CombinedDataset_init list_tf_data (sample_build 7 7) 6
     = Inr \<lparr>combined_dataset_it = [1, 2, 3]\<rparr> \<and>
   CombinedDataset_init list_tf_data (sample_build 7 8) 6 = Inl AssertionError \<and>
   CombinedDataset_init list_tf_data sample_build_missing 6 = Inl FileNotFoundError"
proof -
  note a = CombinedDataset_init_raises_iff[of "sample_build 7 7" 6 list_tf_data]
  note b = CombinedDataset_init_raises_iff[of "sample_build 7 8" 6 list_tf_data]
  note c = CombinedDataset_init_raises_iff[of sample_build_missing 6 list_tf_data]
  have la: "load_datasets (sample_build 7 7) 6 (enumerate 0 builder_dir_list)
     = Inr [([1, 2], \<lparr>expected_tensor_spec = 7\<rparr>), ([3], \<lparr>expected_tensor_spec = 7\<rparr>)]"
    unfolding conjunct1[OF a] by (simp add: sample_build_def bnd_def)
  have lb: "load_datasets (sample_build 7 8) 6 (enumerate 0 builder_dir_list)
     = Inr [([1, 2], \<lparr>expected_tensor_spec = 7\<rparr>), ([3], \<lparr>expected_tensor_spec = 8\<rparr>)]"
    unfolding conjunct1[OF b] by (simp add: sample_build_def bnd_def)
  have lc: "load_datasets sample_build_missing 6 (enumerate 0 builder_dir_list)
     = Inl FileNotFoundError"
    unfolding conjunct1[OF c] by (simp add: sample_build_missing_def bnd_def)
  from a la have "CombinedDataset_init list_tf_data (sample_build 7 7) 6
     = Inr \<lparr>combined_dataset_it = [1, 2, 3]\<rparr>"
    by (simp add: list_tf_data_def)
  moreover from b lb have "CombinedDataset_init list_tf_data (sample_build 7 8) 6
     = Inl AssertionError"
    by simp
  moreover from c lc have "CombinedDataset_init list_tf_data sample_build_missing 6
     = Inl FileNotFoundError"
    by simp
  ultimately show ?thesis by simp
qed

text \<open>
  C2 as stated fails: when \<open>build_dataset\<close> returns for \<open>toto\<close> and raises
  \<open>FileNotFoundError\<close> for \<open>bridge\<close>, the constructor raises \<open>FileNotFoundError\<close>, and no
  source has an expected tensor spec that differs from that of the first source.
\<close>

theorem CombinedDataset_init_raises_without_mismatch:
  "sample_build_missing ''toto'' ''gs://gresearch/robotics/toto/0.1.0'' 6
     = Inr ([1, 2], \<lparr>expected_tensor_spec = 7\<rparr>) \<and>
   sample_build_missing ''bridge'' ''gs://gresearch/robotics/bridge/0.1.0'' 6
     = Inl FileNotFoundError \<and>
   CombinedDataset_init list_tf_data sample_build_missing 6 = Inl FileNotFoundError"
  by (simp add: CombinedDataset_init_def sample_build_missing_def builder_dir_list_def
      dataset_name_list_def bnd_def)

lemma convert_example_keys: "map fst (convert_example f ex) = map fst ex"
  by (induction ex) (auto simp: convert_example_def split: entry.splits)

lemma convert_example_ident: "convert_example (\<lambda>t. t) ex = ex"
  by (induction ex) (auto simp: convert_example_def split: entry.splits)

text \<open>
  C9. \<open>__len__\<close> is \<open>10^8\<close> for every dataset object. \<open>__getitem__\<close> gives the same
  result and the same new iterator state for any two indices \<open>i\<close> and \<open>j\<close>: when the
  iterator has a next element, the result is that element, with the same keys and every
  tensor passed through \<open>tf_to_torch\<close> (so the element itself when the conversion is the
  identity), and the iterator has advanced by one; when the iterator is exhausted,
  \<open>StopIteration\<close> is raised.
\<close>

theorem CombinedDataset_getitem_ignores_idx:
  "CombinedDataset_len ds = 10 ^ 8 \<and>
   CombinedDataset_len ds = CombinedDataset_len ds' \<and>
   CombinedDataset_getitem tf tf_to_torch ds i = CombinedDataset_getitem tf tf_to_torch ds j \<and>
   (\<forall>example it'. next_element tf (combined_dataset_it ds) = Some (example, it') \<longrightarrow>
      CombinedDataset_getitem tf tf_to_torch ds i =
        (Inr (convert_example tf_to_torch example), ds\<lparr>combined_dataset_it := it'\<rparr>) \<and>
      map fst (convert_example tf_to_torch example) = map fst example \<and>
      convert_example (\<lambda>t. t) example = example) \<and>
   (next_element tf (combined_dataset_it ds) = None \<longrightarrow>
      CombinedDataset_getitem tf tf_to_torch ds i = (Inl StopIteration, ds))"
  by (simp add: CombinedDataset_len_def CombinedDataset_getitem_def convert_example_keys
      convert_example_ident)

theorem CombinedDataset_getitem_ignores_idx_witness:
  "CombinedDataset_getitem list_tf_data (\<lambda>t. t + 1)
     \<lparr>combined_dataset_it =
        [[(''is_first'', Leaf (0::nat)), (''action'', Nested [(''final_one'', 4)])]]\<rparr> 5
   = (Inr [(''is_first'', Leaf 1), (''action'', Nested [(''final_one'', 5)])],
      \<lparr>combined_dataset_it = []\<rparr>) \<and>
   CombinedDataset_getitem list_tf_data (\<lambda>t. t + 1)
     \<lparr>combined_dataset_it = ([] :: nat example list)\<rparr> 0
   = (Inl StopIteration, \<lparr>combined_dataset_it = []\<rparr>)"
  using CombinedDataset_getitem_ignores_idx
      [of "\<lparr>combined_dataset_it =
             [[(''is_first'', Leaf (0::nat)), (''action'', Nested [(''final_one'', 4)])]]\<rparr>"
        "\<lparr>combined_dataset_it =
             [[(''is_first'', Leaf (0::nat)), (''action'', Nested [(''final_one'', 4)])]]\<rparr>"
        list_tf_data "\<lambda>t. t + 1" 5 5]
    CombinedDataset_getitem_ignores_idx
      [of "\<lparr>combined_dataset_it = ([] :: nat example list)\<rparr>"
        "\<lparr>combined_dataset_it = ([] :: nat example list)\<rparr>"
        list_tf_data "\<lambda>t. t + 1" 0 0]
  by (simp add: list_tf_data_def convert_example_def)

text \<open>
  C10. The names and builder directories are the two fixed pairs for \<open>toto\<close> and
  \<open>bridge\<close>. For every \<open>time_sequence_length\<close>, the constructor calls \<open>build_dataset\<close>
  for \<open>toto\<close> and then for \<open>bridge\<close>, at these directories, and its result is determined
  by the outcome of these two calls alone: the argument only sets the trajectory length
  passed on to them.
\<close>

theorem CombinedDataset_sources_hard_coded:
  "zip dataset_name_list builder_dir_list =
     [(''toto'', ''gs://gresearch/robotics/toto/0.1.0''),
      (''bridge'', ''gs://gresearch/robotics/bridge/0.1.0'')] \<and>
   CombinedDataset_init tf build time_sequence_length =
     bnd (build ''toto'' ''gs://gresearch/robotics/toto/0.1.0'' time_sequence_length)
       (\<lambda>(d0, t0).
     bnd (build ''bridge'' ''gs://gresearch/robotics/bridge/0.1.0'' time_sequence_length)
       (\<lambda>(d1, t1).
     if expected_tensor_spec t1 = expected_tensor_spec t0
     then Inr \<lparr>combined_dataset_it = iter tf (sample_from_datasets tf [d0, d1])\<rparr>
     else Inl AssertionError))"
  by (simp add: CombinedDataset_init_unfold builder_dir_list_def dataset_name_list_def)

theorem CombinedDataset_sources_hard_coded_witness:
  "CombinedDataset_init list_tf_data (sample_build 7 7) 6
     = Inr \<lparr>combined_dataset_it = [1, 2, 3]\<rparr>"
  using CombinedDataset_sources_hard_coded [of list_tf_data "sample_build 7 7" 6]
  by (simp add: sample_build_def bnd_def list_tf_data_def)


section \<open>Properties of \<open>retrieve_single_timestep\<close>\<close>

lemma length_concat_chunks:
  "(\<forall>i<n. length (f i) = R) \<Longrightarrow> length (concat (map f [0..<n])) = n * R"
  by (induction n) auto

lemma concat_chunks_nth:
  "(\<forall>i<n. length (f i) = R) \<Longrightarrow> b < n \<Longrightarrow> r < R \<Longrightarrow>
   concat (map f [0..<n]) ! (b * R + r) = f b ! r"
proof (induction n)
  case 0
  then show ?case by simp
next
  case (Suc n)
  have len: "length (concat (map f [0..<n])) = n * R"
    using Suc.prems(1) by (simp add: length_concat_chunks)
  show ?case
  proof (cases "b < n")
    case True
    then have "b * R + r < n * R"
    proof -
      have "b * R + r < b * R + R" using Suc.prems(3) by simp
      also have "\<dots> = Suc b * R" by simp
      also have "\<dots> \<le> n * R" using True by (intro mult_le_mono1) simp
      finally show ?thesis .
    qed
    with Suc True len show ?thesis by (simp add: nth_append)
  next
    case False
    with Suc.prems(2) have "b = n" by simp
    with len show ?thesis by (simp add: nth_append)
  qed
qed

lemma slot_bound:
  fixes n B j T R :: nat
  assumes "n < B" "j < T"
  shows "(n * T + j) * R + R \<le> B * T * R"
proof -
  have "n * T + j + 1 \<le> n * T + T" using assms(2) by simp
  also have "\<dots> = Suc n * T" by simp
  also have "\<dots> \<le> B * T" using assms(1) by (intro mult_le_mono1) simp
  finally have "(n * T + j + 1) * R \<le> B * T * R" by (rule mult_le_mono1)
  then show ?thesis by (simp add: algebra_simps)
qed

lemma select_second_axis_value:
  assumes "dims v = B # T # rest" "0 \<le> i" "i < int T"
  shows "select_second_axis v i =
           Inr \<lparr>dims = B # rest,
                elems = concat (map (\<lambda>n. take (prod_list rest)
                                   (drop ((n * T + nat i) * prod_list rest) (elems v))) [0..<B])\<rparr>"
  using assms by (simp add: select_second_axis_def Let_def)

lemma select_second_axis_slice:
  assumes "well_formed v" "dims v = B # T # rest" "0 \<le> i" "i < int T"
  shows "\<exists>v'. select_second_axis v i = Inr v' \<and> dims v' = B # rest \<and> well_formed v' \<and>
           (\<forall>b<B. \<forall>r<prod_list rest.
              elems v' ! (b * prod_list rest + r)
                = elems v ! ((b * T + nat i) * prod_list rest + r))"
proof -
  define R where "R = prod_list rest"
  define f where "f = (\<lambda>n. take R (drop ((n * T + nat i) * R) (elems v)))"
  have len_v: "length (elems v) = B * T * R"
    using assms(1,2) by (simp add: well_formed_def R_def)
  have j: "nat i < T" using assms(3,4) by simp
  have flen: "\<forall>n<B. length (f n) = R"
  proof (intro allI impI)
    fix n assume "n < B"
    from slot_bound[OF this j, of R] len_v show "length (f n) = R"
      by (simp add: f_def)
  qed
  have fnth: "f b ! r = elems v ! ((b * T + nat i) * R + r)" if "b < B" "r < R" for b r
  proof -
    have "(b * T + nat i) * R \<le> (b * T + nat i) * R + R" by simp
    also have "\<dots> \<le> B * T * R" by (rule slot_bound[OF that(1) j])
    finally have "(b * T + nat i) * R \<le> length (elems v)" unfolding len_v .
    with that(2) show ?thesis by (simp add: f_def)
  qed
  let ?v' = "\<lparr>dims = B # rest, elems = concat (map f [0..<B])\<rparr>"
  have "select_second_axis v i = Inr ?v'"
    using select_second_axis_value[OF assms(2-4)] by (simp add: f_def R_def)
  moreover have "well_formed ?v'"
    using length_concat_chunks[OF flen] by (simp add: well_formed_def R_def)
  moreover have "\<forall>b<B. \<forall>r<R. elems ?v' ! (b * R + r) = elems v ! ((b * T + nat i) * R + r)"
    using concat_chunks_nth[OF flen] fnth by simp
  ultimately show ?thesis unfolding R_def by auto
qed

lemma update_middle:
  "k \<notin> fst ` set pre \<Longrightarrow> AList.update k v' (pre @ (k, v) # rest) = pre @ (k, v') # rest"
  by (induction pre) auto

lemma retrieve_loop_append:
  assumes "distinct (map fst items)" "fst ` set pre \<inter> fst ` set items = {}"
    and "\<forall>(k, v) \<in> set items. select_second_axis v idx = Inr (g v)"
  shows "retrieve_loop items idx (pre @ items) = Inr (pre @ map (\<lambda>(k, v). (k, g v)) items)"
  using assms
proof (induction items arbitrary: pre)
  case Nil
  then show ?case by simp
next
  case (Cons kv items)
  obtain k v where kv: "kv = (k, v)" by (cases kv)
  have notin: "k \<notin> fst ` set pre" using Cons.prems(2) kv by auto
  have sel: "select_second_axis v idx = Inr (g v)" using Cons.prems(3) kv by auto
  have "retrieve_loop items idx ((pre @ [(k, g v)]) @ items)
          = Inr ((pre @ [(k, g v)]) @ map (\<lambda>(k, v). (k, g v)) items)"
  proof (rule Cons.IH)
    show "distinct (map fst items)" using Cons.prems(1) by simp
    show "fst ` set (pre @ [(k, g v)]) \<inter> fst ` set items = {}"
      using Cons.prems(1,2) kv by auto
    show "\<forall>(k, v)\<in>set items. select_second_axis v idx = Inr (g v)"
      using Cons.prems(3) by simp
  qed
  then show ?case
    by (simp add: kv sel bnd_Inr update_middle[OF notin])
qed

lemma retrieve_single_timestep_map:
  assumes "distinct (map fst dict_obj)"
    and "\<forall>(k, v) \<in> set dict_obj. select_second_axis v idx = Inr (g v)"
  shows "retrieve_single_timestep dict_obj idx = Inr (map (\<lambda>(k, v). (k, g v)) dict_obj)"
  using retrieve_loop_append[of dict_obj "[]" idx g] assms
  by (simp add: retrieve_single_timestep_def)

text \<open>
  C8. Let \<open>dict_obj\<close> be a dict (its keys are distinct) whose values are well-formed tensors
  with at least two axes, the second of size \<open>T\<close>, and let \<open>0 \<le> i < T\<close>. Then
  \<open>retrieve_single_timestep\<close> returns a dict with the same keys in the same order, in which
  the value \<open>v\<close> of each key is replaced by \<open>v[:, i]\<close>: for \<open>v\<close> of shape
  \<open>B # T # rest\<close> a well-formed tensor of shape \<open>B # rest\<close> whose element at \<open>(b, r)\<close> is
  the element of \<open>v\<close> at \<open>(b, i, r)\<close>, where \<open>r\<close> runs over the positions of the remaining
  axes in row-major order.
\<close>

theorem retrieve_single_timestep_removes_time_axis:
  assumes "distinct (map fst dict_obj)"
    and "\<forall>(k, v) \<in> set dict_obj. well_formed v \<and> (\<exists>B rest. dims v = B # T # rest)"
    and "0 \<le> i" and "i < int T"
  shows "\<exists>ret. retrieve_single_timestep dict_obj i = Inr ret \<and>
           map fst ret = map fst dict_obj \<and>
           (\<forall>n < length dict_obj. \<exists>B rest v'.
              dims (snd (dict_obj ! n)) = B # T # rest \<and>
              select_second_axis (snd (dict_obj ! n)) i = Inr v' \<and>
              snd (ret ! n) = v' \<and>
              dims v' = B # rest \<and> well_formed v' \<and>
              (\<forall>b<B. \<forall>r<prod_list rest.
                 elems v' ! (b * prod_list rest + r)
                   = elems (snd (dict_obj ! n)) ! ((b * T + nat i) * prod_list rest + r)))"
proof -
  define g where "g = (\<lambda>v :: 'a torch_tensor. projr (select_second_axis v i))"
  have slice: "\<exists>B rest. dims v = B # T # rest \<and>
                 select_second_axis v i = Inr (g v) \<and>
                 dims (g v) = B # rest \<and> well_formed (g v) \<and>
                 (\<forall>b<B. \<forall>r<prod_list rest.
                    elems (g v) ! (b * prod_list rest + r)
                      = elems v ! ((b * T + nat i) * prod_list rest + r))"
    if "(k, v) \<in> set dict_obj" for k v
  proof -
    from assms(2) that obtain B rest where wf: "well_formed v" and d: "dims v = B # T # rest"
      by auto
    from select_second_axis_slice[OF wf d assms(3,4)] d show ?thesis
      unfolding g_def by fastforce
  qed
  have ret: "retrieve_single_timestep dict_obj i = Inr (map (\<lambda>(k, v). (k, g v)) dict_obj)"
    by (rule retrieve_single_timestep_map[OF assms(1)]) (use slice in auto)
  have keys: "map fst (map (\<lambda>(k, v). (k, g v)) dict_obj) = map fst dict_obj"
    by (induction dict_obj) auto
  have each: "\<exists>B rest v'.
              dims (snd (dict_obj ! n)) = B # T # rest \<and>
              select_second_axis (snd (dict_obj ! n)) i = Inr v' \<and>
              snd (map (\<lambda>(k, v). (k, g v)) dict_obj ! n) = v' \<and>
              dims v' = B # rest \<and> well_formed v' \<and>
              (\<forall>b<B. \<forall>r<prod_list rest.
                 elems v' ! (b * prod_list rest + r)
                   = elems (snd (dict_obj ! n)) ! ((b * T + nat i) * prod_list rest + r))"
    if "n < length dict_obj" for n
  proof -
    obtain k v where kv: "dict_obj ! n = (k, v)" by (cases "dict_obj ! n")
    with that have "(k, v) \<in> set dict_obj" by (metis nth_mem)
    from slice[OF this] show ?thesis using that kv by auto
  qed
  from ret keys each show ?thesis by blast
qed

theorem retrieve_single_timestep_removes_time_axis_witness:
  "distinct (map fst sample_batch) \<and>
   list_all (\<lambda>(k, v). well_formed v \<and> hd (tl (dims v)) = 3) sample_batch \<and>
   retrieve_single_timestep sample_batch 1 =
     Inr [(''image'', \<lparr>dims = [2, 2], elems = [2, 3, 8, 9]\<rparr>),
          (''flag'', \<lparr>dims = [1], elems = [21]\<rparr>)]"
  using retrieve_single_timestep_removes_time_axis [of sample_batch 3 1]
  by (simp add: sample_batch_def retrieve_single_timestep_def select_second_axis_def
      well_formed_def bnd_def Let_def upt_rec)



section \<open>Properties of \<open>Trainer.train\<close>\<close>

lemma epochs_entered_append:
  "epochs_entered (a @ b) = epochs_entered a @ epochs_entered b"
  by (simp add: epochs_entered_def)

lemma checkpoints_saved_append:
  "checkpoints_saved (a @ b) = checkpoints_saved a @ checkpoints_saved b"
  by (simp add: checkpoints_saved_def)

lemma checkpoint_writes_append:
  "checkpoint_writes m (a @ b) = checkpoint_writes m a @ checkpoint_writes m b"
  by (simp add: checkpoint_writes_def)

lemma epochs_entered_logs: "list_all is_metric_log logs \<Longrightarrow> epochs_entered logs = []"
  by (induction logs) (auto simp: epochs_entered_def split: event.splits)

lemma checkpoints_saved_logs: "list_all is_metric_log logs \<Longrightarrow> checkpoints_saved logs = []"
  by (induction logs) (auto simp: checkpoints_saved_def split: event.splits)

lemma train_batches_props:
  "\<exists>logs. trace (train_batches L is_main e items st) = trace st @ logs \<and>
      list_all is_metric_log logs \<and>
      (\<not> is_main \<longrightarrow> logs = []) \<and>
      length logs = (if is_main then 3 * length items else 0) \<and>
      args (trainer_obj (train_batches L is_main e items st)) = args (trainer_obj st) \<and>
      checkpoint_dir (trainer_obj (train_batches L is_main e items st))
        = checkpoint_dir (trainer_obj st) \<and>
      scheduler (train_batches L is_main e items st) = scheduler st"
proof (induction items arbitrary: st)
  case Nil
  then show ?case by simp
next
  case (Cons item items)
  obtain n' o' loss where t: "train_on_batch L (network st) (optimizer st) item = (n', o', loss)"
    by (cases "train_on_batch L (network st) (optimizer st) item")
  let ?st = "st\<lparr>network := n', optimizer := o',
                trace := trace st @
                  (if is_main then
                     [AddScalar ''loss_ce'' (train_step (trainer_obj st)) (Measured loss),
                      AddScalar ''epoch'' (train_step (trainer_obj st)) (EpochNumber e),
                      AddScalar ''lr'' (train_step (trainer_obj st))
                        (Measured (current_lr L o'))]
                   else []),
                trainer_obj := (trainer_obj st)\<lparr>train_step := train_step (trainer_obj st) + 1\<rparr>\<rparr>"
  from Cons.IH[of ?st] obtain logs where
    l: "trace (train_batches L is_main e items ?st) = trace ?st @ logs"
      "list_all is_metric_log logs" "\<not> is_main \<longrightarrow> logs = []"
      "length logs = (if is_main then 3 * length items else 0)"
      "args (trainer_obj (train_batches L is_main e items ?st)) = args (trainer_obj ?st)"
      "checkpoint_dir (trainer_obj (train_batches L is_main e items ?st))
        = checkpoint_dir (trainer_obj ?st)"
      "scheduler (train_batches L is_main e items ?st) = scheduler ?st"
    by blast
  have eq: "train_batches L is_main e (item # items) st = train_batches L is_main e items ?st"
    by (simp add: t)
  show ?case
    unfolding eq using l
    by (intro exI[of _ "(if is_main then
                     [AddScalar ''loss_ce'' (train_step (trainer_obj st)) (Measured loss),
                      AddScalar ''epoch'' (train_step (trainer_obj st)) (EpochNumber e),
                      AddScalar ''lr'' (train_step (trainer_obj st))
                        (Measured (current_lr L o'))]
                   else []) @ logs"]) auto
qed

lemma train_batches_Nil: "train_batches L is_main e [] st = st"
  by simp

lemma train_epoch_props:
  assumes "val_interval (args (trainer_obj st)) \<noteq> 0"
  shows "\<exists>st' st1 logs.
      train_epoch L env st e = Inr st' \<and>
      st1 = train_batches L (is_main_process env) e (dataloader env e)
              (st\<lparr>trace := trace st @ [EpochBegin e]\<rparr>) \<and>
      trace st' = trace st @ [EpochBegin e] @ logs @
        (if (e + 1) mod val_interval (args (trainer_obj st)) = 0
         then SaveOnMaster (make_checkpoint st1 e)
                (path_join (checkpoint_dir (trainer_obj st)) [str_int e @ ''-checkpoint.pth''])
              # (if distributed (args (trainer_obj st)) then [Barrier, Barrier] else [])
         else []) \<and>
      list_all is_metric_log logs \<and>
      (\<not> is_main_process env \<longrightarrow> logs = []) \<and>
      length logs = (if is_main_process env then 3 * length (dataloader env e) else 0) \<and>
      args (trainer_obj st') = args (trainer_obj st) \<and>
      checkpoint_dir (trainer_obj st') = checkpoint_dir (trainer_obj st)"
proof -
  let ?st0 = "st\<lparr>trace := trace st @ [EpochBegin e]\<rparr>"
  let ?st1 = "train_batches L (is_main_process env) e (dataloader env e) ?st0"
  from train_batches_props[of L "is_main_process env" e "dataloader env e" ?st0]
  obtain logs where
    l: "trace ?st1 = trace ?st0 @ logs"
      "list_all is_metric_log logs" "\<not> is_main_process env \<longrightarrow> logs = []"
      "length logs = (if is_main_process env then 3 * length (dataloader env e) else 0)"
      "args (trainer_obj ?st1) = args (trainer_obj ?st0)"
      "checkpoint_dir (trainer_obj ?st1) = checkpoint_dir (trainer_obj ?st0)"
    by blast
  show ?thesis
    using assms l
    by (auto simp: train_epoch_def Let_def split: prod.splits)
qed


lemma filter_logs_only: "list_all is_metric_log logs \<Longrightarrow> filter is_metric_log logs = logs"
  by (induction logs) auto

lemma train_loop_props:
  assumes "val_interval (args (trainer_obj st)) \<noteq> 0"
  shows "\<exists>st' suffix.
      train_loop L env es st = Inr st' \<and>
      trace st' = trace st @ suffix \<and>
      args (trainer_obj st') = args (trainer_obj st) \<and>
      checkpoint_dir (trainer_obj st') = checkpoint_dir (trainer_obj st) \<and>
      epochs_entered suffix = es \<and>
      map checkpoint_summary (checkpoints_saved suffix) =
        map (\<lambda>e. ([''model_state_dict'', ''optimizer_state_dict'', ''scheduler_state_dict'',
                     ''epoch''],
                    Some (EpochIndex e),
                    path_join (checkpoint_dir (trainer_obj st)) [str_int e @ ''-checkpoint.pth'']))
          (filter (\<lambda>e. (e + 1) mod val_interval (args (trainer_obj st)) = 0) es) \<and>
      (\<not> is_main_process env \<longrightarrow> filter is_metric_log suffix = [])"
  using assms
proof (induction es arbitrary: st)
  case Nil
  then show ?case by (simp add: epochs_entered_def checkpoints_saved_def)
next
  case (Cons e es)
  from train_epoch_props[OF Cons.prems, of L env e]
  obtain st' st1 logs where
    ep: "train_epoch L env st e = Inr st'"
    and st1: "st1 = train_batches L (is_main_process env) e (dataloader env e)
              (st\<lparr>trace := trace st @ [EpochBegin e]\<rparr>)"
    and tr: "trace st' = trace st @ [EpochBegin e] @ logs @
        (if (e + 1) mod val_interval (args (trainer_obj st)) = 0
         then SaveOnMaster (make_checkpoint st1 e)
                (path_join (checkpoint_dir (trainer_obj st)) [str_int e @ ''-checkpoint.pth''])
              # (if distributed (args (trainer_obj st)) then [Barrier, Barrier] else [])
         else [])"
    and logs: "list_all is_metric_log logs" "\<not> is_main_process env \<longrightarrow> logs = []"
    and inv: "args (trainer_obj st') = args (trainer_obj st)"
      "checkpoint_dir (trainer_obj st') = checkpoint_dir (trainer_obj st)"
    by blast
  define seg where "seg = [EpochBegin e] @ logs @
        (if (e + 1) mod val_interval (args (trainer_obj st)) = 0
         then SaveOnMaster (make_checkpoint st1 e)
                (path_join (checkpoint_dir (trainer_obj st)) [str_int e @ ''-checkpoint.pth''])
              # (if distributed (args (trainer_obj st)) then [Barrier, Barrier] else [])
         else [])"
  have tr': "trace st' = trace st @ seg" using tr by (simp add: seg_def)
  have seg_ep: "epochs_entered seg = [e]"
    using epochs_entered_logs[OF logs(1)]
    by (simp add: seg_def epochs_entered_append) (simp add: epochs_entered_def)
  have seg_ck: "map checkpoint_summary (checkpoints_saved seg) =
      (if (e + 1) mod val_interval (args (trainer_obj st)) = 0
       then [([''model_state_dict'', ''optimizer_state_dict'', ''scheduler_state_dict'',
                 ''epoch''],
               Some (EpochIndex e),
               path_join (checkpoint_dir (trainer_obj st)) [str_int e @ ''-checkpoint.pth''])]
       else [])"
    using checkpoints_saved_logs[OF logs(1)]
    by (simp add: seg_def checkpoints_saved_append)
       (simp add: checkpoints_saved_def checkpoint_summary_def make_checkpoint_def)
  have seg_log: "\<not> is_main_process env \<longrightarrow> filter is_metric_log seg = []"
    using logs(2) by (simp add: seg_def)
  have "val_interval (args (trainer_obj st')) \<noteq> 0" using Cons.prems inv by simp
  from Cons.IH[OF this] obtain st'' suffix where
    rest: "train_loop L env es st' = Inr st''"
      "trace st'' = trace st' @ suffix"
      "args (trainer_obj st'') = args (trainer_obj st')"
      "checkpoint_dir (trainer_obj st'') = checkpoint_dir (trainer_obj st')"
      "epochs_entered suffix = es"
      "map checkpoint_summary (checkpoints_saved suffix) =
        map (\<lambda>e. ([''model_state_dict'', ''optimizer_state_dict'', ''scheduler_state_dict'',
                     ''epoch''],
                    Some (EpochIndex e),
                    path_join (checkpoint_dir (trainer_obj st')) [str_int e @ ''-checkpoint.pth'']))
          (filter (\<lambda>e. (e + 1) mod val_interval (args (trainer_obj st')) = 0) es)"
      "\<not> is_main_process env \<longrightarrow> filter is_metric_log suffix = []"
    by blast
  have "train_loop L env (e # es) st = Inr st''"
    by (simp add: ep rest(1) bnd_Inr)
  moreover have "trace st'' = trace st @ (seg @ suffix)"
    by (simp add: rest(2) tr')
  moreover have "epochs_entered (seg @ suffix) = e # es"
    by (simp add: epochs_entered_append seg_ep rest(5))
  moreover have "map checkpoint_summary (checkpoints_saved (seg @ suffix)) =
        map (\<lambda>e. ([''model_state_dict'', ''optimizer_state_dict'', ''scheduler_state_dict'',
                     ''epoch''],
                    Some (EpochIndex e),
                    path_join (checkpoint_dir (trainer_obj st)) [str_int e @ ''-checkpoint.pth'']))
          (filter (\<lambda>e. (e + 1) mod val_interval (args (trainer_obj st)) = 0) (e # es))"
    by (simp add: checkpoints_saved_append seg_ck rest(6) inv)
  moreover have "\<not> is_main_process env \<longrightarrow> filter is_metric_log (seg @ suffix) = []"
    using seg_log rest(7) by simp
  ultimately show ?case using rest(3,4) inv
    by (intro exI[of _ st''] exI[of _ "seg @ suffix"]) simp
qed

lemma train_unfold:
  assumes "if resume (args self)
           then checkpoint_file env = Some ck \<and> load_state_dicts ck = Inr (m, opt, s) \<and>
                stored_epoch ck = Inr start
           else m = new_network L \<and> (opt, s) = new_scheduler L (new_optimizer L m) \<and> start = 0"
  shows "train L env self =
           train_loop L env [start..epochs (args self) - 1]
             \<lparr>trainer_obj = self, network = m, optimizer = opt, scheduler = s, trace = []\<rparr>"
  using assms
  by (cases "new_scheduler L (new_optimizer L (new_network L))")
     (auto simp: train_def Let_def bnd_Inr py_range_def split: if_splits)


lemma digit_char_digit: "d < 10 \<Longrightarrow> digit_char d \<in> set ''0123456789''"
  unfolding digit_char_def by (rule nth_mem) simp

lemma str_nat_digits: "str_nat n \<noteq> [] \<and> set (str_nat n) \<subseteq> set ''0123456789''"
proof (induction n rule: str_nat.induct)
  case (1 n)
  show ?case
  proof (cases "n < 10")
    case True
    then show ?thesis
      using digit_char_digit[of n] by (subst (1 2) str_nat.simps) simp
  next
    case False
    have "n mod 10 < 10" by simp
    from digit_char_digit[OF this] 1[OF False] False show ?thesis
      by (subst (1 2) str_nat.simps) simp
  qed
qed

lemma str_nat_no_slash:
  "str_nat n \<noteq> []" "hd (str_nat n) \<noteq> CHR ''/''" "last (str_nat n) \<noteq> CHR ''/''"
proof -
  from str_nat_digits[of n] show ne: "str_nat n \<noteq> []" by simp
  have "CHR ''/'' \<notin> set (str_nat n)"
    using str_nat_digits[of n] by auto
  with ne show "hd (str_nat n) \<noteq> CHR ''/''" "last (str_nat n) \<noteq> CHR ''/''"
    by (metis hd_in_set, metis last_in_set)
qed

lemma str_int_no_slash: "str_int e \<noteq> []" "hd (str_int e) \<noteq> CHR ''/''"
  using str_nat_no_slash[of "nat e"] by (auto simp: str_int_def)

lemma checkpoint_path_literal:
  assumes "d \<noteq> []" "last d \<noteq> CHR ''/''"
  shows "path_join d [str_nat now, str_int e @ ''-checkpoint.pth'']
           = d @ ''/'' @ str_nat now @ ''/'' @ str_int e @ ''-checkpoint.pth''"
  using assms str_nat_no_slash[of now] str_int_no_slash[of e]
  by simp

lemma Trainer_init_fields:
  "args (Trainer_init cfg now) = cfg"
  "checkpoint_dir (Trainer_init cfg now) = path_join (log_dir cfg) [str_nat now]"
  "train_name (Trainer_init cfg now) = str_nat now"
  by (simp_all add: Trainer_init_def make_log_dir_def Let_def del: path_join.simps)

lemma train_returns:
  assumes "val_interval (args self) \<noteq> 0"
    and "resume (args self) \<longrightarrow>
           checkpoint_file env = Some ck \<and> load_state_dicts ck = Inr w \<and>
           stored_epoch ck = Inr E"
  shows "\<exists>st. train L env self = Inr st \<and>
           epochs_entered (trace st) = [(if resume (args self) then E else 0)..epochs (args self) - 1] \<and>
           map checkpoint_summary (checkpoints_saved (trace st)) =
             map (\<lambda>e. ([''model_state_dict'', ''optimizer_state_dict'', ''scheduler_state_dict'',
                          ''epoch''],
                         Some (EpochIndex e),
                         path_join (checkpoint_dir self) [str_int e @ ''-checkpoint.pth'']))
               (filter (\<lambda>e. (e + 1) mod val_interval (args self) = 0)
                  [(if resume (args self) then E else 0)..epochs (args self) - 1]) \<and>
           (\<not> is_main_process env \<longrightarrow> filter is_metric_log (trace st) = [])"
proof -
  define start where "start = (if resume (args self) then E else 0)"
  obtain m opt s where u: "train L env self =
           train_loop L env [start..epochs (args self) - 1]
             \<lparr>trainer_obj = self, network = m, optimizer = opt, scheduler = s, trace = []\<rparr>"
  proof (cases "resume (args self)")
    case True
    obtain m opt s where "w = (m, opt, s)" by (cases w)
    with True assms(2) train_unfold[of self env ck m opt s start L] that show ?thesis
      by (simp add: start_def)
  next
    case False
    obtain opt s where "new_scheduler L (new_optimizer L (new_network L)) = (opt, s)"
      by (cases "new_scheduler L (new_optimizer L (new_network L))")
    with False train_unfold[of self env ck "new_network L" opt s start L] that show ?thesis
      by (simp add: start_def)
  qed
  let ?st = "\<lparr>trainer_obj = self, network = m, optimizer = opt, scheduler = s, trace = []\<rparr>
               :: ('a, 'b, 'c, 'e) run_state"
  have "val_interval (args (trainer_obj ?st)) \<noteq> 0" using assms(1) by simp
  from train_loop_props[OF this, of L env "[start..epochs (args self) - 1]"]
  show ?thesis unfolding u start_def[symmetric] by auto
qed

text \<open>
  C5. Let \<open>val_interval\<close> be non-zero and, when resuming, let the checkpoint file hold a
  checkpoint with its four entries, of stored epoch \<open>E\<close>. Then \<open>train\<close> returns, and the
  checkpoints it hands to \<open>save_on_master\<close> are, in order, one for each epoch \<open>e\<close> of the
  run for which \<open>e + 1\<close> is a multiple of \<open>val_interval\<close>, and no other: each is a dict
  with exactly the keys \<open>model_state_dict\<close>, \<open>optimizer_state_dict\<close>,
  \<open>scheduler_state_dict\<close> and \<open>epoch\<close>, with \<open>e\<close> under \<open>epoch\<close>, and its file name is
  \<open>os.path.join(log_dir, run_id, str(e) + "-checkpoint.pth")\<close>, which is
  \<open>log_dir/run_id/e-checkpoint.pth\<close> when \<open>log_dir\<close> is not empty and has no trailing slash.
\<close>

theorem checkpoint_every_val_interval:
  assumes "val_interval cfg \<noteq> 0"
    and "resume cfg \<longrightarrow>
           checkpoint_file env = Some ck \<and> load_state_dicts ck = Inr w \<and>
           stored_epoch ck = Inr E"
  shows "\<exists>st. train L env (Trainer_init cfg now) = Inr st \<and>
           map checkpoint_summary (checkpoints_saved (trace st)) =
             map (\<lambda>e. ([''model_state_dict'', ''optimizer_state_dict'', ''scheduler_state_dict'',
                          ''epoch''],
                         Some (EpochIndex e),
                         path_join (log_dir cfg) [str_nat now, str_int e @ ''-checkpoint.pth'']))
               (filter (\<lambda>e. val_interval cfg dvd e + 1)
                  [(if resume cfg then E else 0)..epochs cfg - 1]) \<and>
           (log_dir cfg \<noteq> [] \<and> last (log_dir cfg) \<noteq> CHR ''/'' \<longrightarrow>
              (\<forall>e. path_join (log_dir cfg) [str_nat now, str_int e @ ''-checkpoint.pth'']
                     = log_dir cfg @ ''/'' @ str_nat now @ ''/'' @ str_int e
                         @ ''-checkpoint.pth''))"
proof -
  have a: "val_interval (args (Trainer_init cfg now)) \<noteq> 0"
    and b: "resume (args (Trainer_init cfg now)) \<longrightarrow>
           checkpoint_file env = Some ck \<and> load_state_dicts ck = Inr w \<and>
           stored_epoch ck = Inr E"
    using assms by (simp_all add: Trainer_init_fields)
  have p: "path_join (checkpoint_dir (Trainer_init cfg now)) [f]
             = path_join (log_dir cfg) [str_nat now, f]" for f
    by (simp add: Trainer_init_fields)
  have d: "((e + 1) mod val_interval cfg = 0) = (val_interval cfg dvd e + 1)" for e
    by (simp add: mod_eq_0_iff_dvd)
  from train_returns[OF a b, of L] obtain st where
    "train L env (Trainer_init cfg now) = Inr st"
    "map checkpoint_summary (checkpoints_saved (trace st)) =
             map (\<lambda>e. ([''model_state_dict'', ''optimizer_state_dict'', ''scheduler_state_dict'',
                          ''epoch''],
                         Some (EpochIndex e),
                         path_join (checkpoint_dir (Trainer_init cfg now))
                           [str_int e @ ''-checkpoint.pth'']))
               (filter (\<lambda>e. (e + 1) mod val_interval (args (Trainer_init cfg now)) = 0)
                  [(if resume (args (Trainer_init cfg now)) then E else 0)
                    ..epochs (args (Trainer_init cfg now)) - 1])"
    by blast
  then have "train L env (Trainer_init cfg now) = Inr st \<and>
           map checkpoint_summary (checkpoints_saved (trace st)) =
             map (\<lambda>e. ([''model_state_dict'', ''optimizer_state_dict'', ''scheduler_state_dict'',
                          ''epoch''],
                         Some (EpochIndex e),
                         path_join (log_dir cfg) [str_nat now, str_int e @ ''-checkpoint.pth'']))
               (filter (\<lambda>e. val_interval cfg dvd e + 1)
                  [(if resume cfg then E else 0)..epochs cfg - 1])"
    unfolding p d Trainer_init_fields by simp
  moreover have "log_dir cfg \<noteq> [] \<and> last (log_dir cfg) \<noteq> CHR ''/'' \<longrightarrow>
              (\<forall>e. path_join (log_dir cfg) [str_nat now, str_int e @ ''-checkpoint.pth'']
                     = log_dir cfg @ ''/'' @ str_nat now @ ''/'' @ str_int e
                         @ ''-checkpoint.pth'')"
    using checkpoint_path_literal by blast
  ultimately show ?thesis by blast
qed

theorem checkpoint_every_val_interval_witness:
  "\<exists>st. train sample_learner (sample_env True [5] None) (Trainer_init (sample_args False False 4 2) 7)
          = Inr st \<and>
     map checkpoint_summary (checkpoints_saved (trace st)) =
       [([''model_state_dict'', ''optimizer_state_dict'', ''scheduler_state_dict'', ''epoch''],
         Some (EpochIndex 1), ''logs/7/1-checkpoint.pth''),
        ([''model_state_dict'', ''optimizer_state_dict'', ''scheduler_state_dict'', ''epoch''],
         Some (EpochIndex 3), ''logs/7/3-checkpoint.pth'')]"
  using checkpoint_every_val_interval
    [of "sample_args False False 4 2" "sample_env True [5] None" "[]" "(0, 0, 0)" 0
       sample_learner 7]
  by (auto simp: sample_args_def str_nat.simps str_int_def digit_char_def upto.simps)

lemma load_state_dicts_of_entries:
  "map_of ck ''model_state_dict'' = Some (ModelState m) \<Longrightarrow>
   map_of ck ''optimizer_state_dict'' = Some (OptimizerState opt) \<Longrightarrow>
   map_of ck ''scheduler_state_dict'' = Some (SchedulerState s) \<Longrightarrow>
   load_state_dicts ck = Inr (m, opt, s)"
  by (simp add: load_state_dicts_def checkpoint_get_def bnd_def)

lemma stored_epoch_of_entry:
  "map_of ck ''epoch'' = Some (EpochIndex E) \<Longrightarrow> stored_epoch ck = Inr E"
  by (simp add: stored_epoch_def checkpoint_get_def bnd_def)

lemma train_epoch_zero_interval:
  "val_interval (args (trainer_obj st)) = 0 \<Longrightarrow> train_epoch L env st e = Inl ZeroDivisionError"
  using train_batches_props[of L "is_main_process env" e "dataloader env e"
      "st\<lparr>trace := trace st @ [EpochBegin e]\<rparr>"]
  by (auto simp: train_epoch_def Let_def)

lemma train_loop_zero_interval:
  "val_interval (args (trainer_obj st)) = 0 \<Longrightarrow>
   train_loop L env es st = (if es = [] then Inr st else Inl ZeroDivisionError)"
  by (cases es) (simp_all add: train_epoch_zero_interval bnd_Inl)

lemma train_without_checkpoint_file:
  "resume (args self) \<Longrightarrow> checkpoint_file env = None \<Longrightarrow>
   train L env self = Inl FileNotFoundError"
  by (simp add: train_def Let_def bnd_Inl)

text \<open>
  C6, as the code has it. When resuming, let the checkpoint file hold a checkpoint with its
  three state entries and with the entry \<open>E\<close> under \<open>epoch\<close>; the start epoch is \<open>E\<close> with
  resume and 0 without. If \<open>val_interval\<close> is not zero, \<open>train\<close> returns, and the epochs
  whose loop body it has entered are, in order, \<open>0, 1, ..., epochs - 1\<close> without resume and
  \<open>E, E + 1, ..., epochs - 1\<close> with resume: exactly the epochs from the start epoch on with
  index less than \<open>epochs\<close>. If \<open>val_interval\<close> is zero, a run whose start epoch is less
  than \<open>epochs\<close> raises \<open>ZeroDivisionError\<close> at the test \<open>(e + 1) % val_interval\<close> of the
  first epoch it enters, and a run whose start epoch is not less than \<open>epochs\<close> returns
  without entering an epoch.
\<close>

theorem train_epoch_range:
  assumes "resume (args self) \<longrightarrow>
           checkpoint_file env = Some ck \<and>
           map_of ck ''model_state_dict'' = Some (ModelState m) \<and>
           map_of ck ''optimizer_state_dict'' = Some (OptimizerState opt) \<and>
           map_of ck ''scheduler_state_dict'' = Some (SchedulerState s) \<and>
           map_of ck ''epoch'' = Some (EpochIndex E)"
  shows "(val_interval (args self) \<noteq> 0 \<longrightarrow>
            (\<exists>st. train L env self = Inr st \<and>
               epochs_entered (trace st) =
                 [(if resume (args self) then E else 0)..epochs (args self) - 1] \<and>
               set (epochs_entered (trace st)) =
                 {e. (if resume (args self) then E else 0) \<le> e \<and> e < epochs (args self)})) \<and>
         (val_interval (args self) = 0 \<longrightarrow>
            train L env self =
              (if (if resume (args self) then E else 0) < epochs (args self)
               then Inl ZeroDivisionError
               else Inr \<lparr>trainer_obj = self,
                         network = (if resume (args self) then m else new_network L),
                         optimizer = (if resume (args self) then opt
                            else fst (new_scheduler L (new_optimizer L (new_network L)))),
                         scheduler = (if resume (args self) then s
                            else snd (new_scheduler L (new_optimizer L (new_network L)))),
                         trace = []\<rparr>))"
proof -
  let ?start = "if resume (args self) then E else 0"
  have r: "resume (args self) \<longrightarrow>
           checkpoint_file env = Some ck \<and> load_state_dicts ck = Inr (m, opt, s) \<and>
           stored_epoch ck = Inr E"
    using assms by (simp add: load_state_dicts_of_entries stored_epoch_of_entry)
  have nz: "\<exists>st. train L env self = Inr st \<and>
               epochs_entered (trace st) = [?start..epochs (args self) - 1] \<and>
               set (epochs_entered (trace st)) = {e. ?start \<le> e \<and> e < epochs (args self)}"
    if v: "val_interval (args self) \<noteq> 0"
  proof -
    from train_returns[OF v r, of L] obtain st where
      "train L env self = Inr st"
      "epochs_entered (trace st) = [?start..epochs (args self) - 1]"
      by (elim exE conjE) (rule that; assumption)
    then show ?thesis by (intro exI[of _ st]) auto
  qed
  have z: "train L env self =
              (if ?start < epochs (args self)
               then Inl ZeroDivisionError
               else Inr \<lparr>trainer_obj = self,
                         network = (if resume (args self) then m else new_network L),
                         optimizer = (if resume (args self) then opt
                            else fst (new_scheduler L (new_optimizer L (new_network L)))),
                         scheduler = (if resume (args self) then s
                            else snd (new_scheduler L (new_optimizer L (new_network L)))),
                         trace = []\<rparr>)"
    if v: "val_interval (args self) = 0"
  proof -
    let ?m = "if resume (args self) then m else new_network L"
    let ?o = "if resume (args self) then opt
              else fst (new_scheduler L (new_optimizer L (new_network L)))"
    let ?s = "if resume (args self) then s
              else snd (new_scheduler L (new_optimizer L (new_network L)))"
    have u: "train L env self =
           train_loop L env [?start..epochs (args self) - 1]
             \<lparr>trainer_obj = self, network = ?m, optimizer = ?o, scheduler = ?s, trace = []\<rparr>"
      by (rule train_unfold[of self env ck]) (use r in simp)
    have e: "[?start..epochs (args self) - 1] = [] \<longleftrightarrow> \<not> ?start < epochs (args self)"
      by auto
    show ?thesis
      unfolding u using v e by (simp add: train_loop_zero_interval)
  qed
  from nz z show ?thesis by (intro conjI impI)
qed

theorem train_epoch_range_witness:
  "(\<exists>st. train sample_learner (sample_env True [5] (Some (sample_checkpoint 2)))
           (Trainer_init (sample_args False True 5 2) 7) = Inr st \<and>
         epochs_entered (trace st) = [2, 3, 4]) \<and>
   (\<exists>st. train sample_learner (sample_env True [5] None)
           (Trainer_init (sample_args False False 3 2) 7) = Inr st \<and>
         epochs_entered (trace st) = [0, 1, 2]) \<and>
   train sample_learner (sample_env True [5] (Some (sample_checkpoint 2)))
      (Trainer_init (sample_args False True 5 0) 7) = Inl ZeroDivisionError \<and>
   train sample_learner (sample_env True [5] (Some (sample_checkpoint 2)))
      (Trainer_init (sample_args False True 2 0) 7)
     = Inr \<lparr>trainer_obj = Trainer_init (sample_args False True 2 0) 7,
            network = 1, optimizer = 2, scheduler = 3, trace = []\<rparr>"
  using train_epoch_range
    [of "Trainer_init (sample_args False True 5 2) 7" "sample_env True [5] (Some (sample_checkpoint 2))"
       "sample_checkpoint 2" 1 2 3 2 sample_learner]
    train_epoch_range
    [of "Trainer_init (sample_args False False 3 2) 7" "sample_env True [5] None"
       "[]" 0 0 0 0 sample_learner]
    train_epoch_range
    [of "Trainer_init (sample_args False True 5 0) 7" "sample_env True [5] (Some (sample_checkpoint 2))"
       "sample_checkpoint 2" 1 2 3 2 sample_learner]
    train_epoch_range
    [of "Trainer_init (sample_args False True 2 0) 7" "sample_env True [5] (Some (sample_checkpoint 2))"
       "sample_checkpoint 2" 1 2 3 2 sample_learner]
  by (auto simp: Trainer_init_fields sample_args_def sample_env_def sample_checkpoint_def
      upto.simps)

text \<open>
  C6 as stated fails: a run without resume with \<open>epochs\<close> 2 and \<open>val_interval\<close> 0 does not
  iterate the epochs 0 and 1; it raises \<open>ZeroDivisionError\<close> in epoch 0.
\<close>

theorem train_raises_on_zero_val_interval:
  "train sample_learner (sample_env True [5] None) (Trainer_init (sample_args False False 2 0) 7)
     = Inl ZeroDivisionError"
  by (simp add: train_def sample_learner_def sample_env_def sample_args_def Trainer_init_def
      make_log_dir_def Let_def bnd_def py_range_def upto.simps train_epoch_def)

lemma load_state_dicts_entries:
  "load_state_dicts ck = Inr (m, opt, s) \<Longrightarrow>
   map_of ck ''model_state_dict'' = Some (ModelState m) \<and>
   map_of ck ''optimizer_state_dict'' = Some (OptimizerState opt) \<and>
   map_of ck ''scheduler_state_dict'' = Some (SchedulerState s)"
  by (auto simp: load_state_dicts_def checkpoint_get_def bnd_def
      split: option.splits ckval.splits sum.splits)

lemma stored_epoch_entry:
  "stored_epoch ck = Inr E \<Longrightarrow> map_of ck ''epoch'' = Some (EpochIndex E)"
  by (auto simp: stored_epoch_def checkpoint_get_def bnd_def
      split: option.splits ckval.splits sum.splits)

text \<open>
  C7. Let \<open>train\<close> resume from a checkpoint \<open>ck\<close> with model, optimizer and scheduler
  state \<open>m\<close>, \<open>opt\<close>, \<open>s\<close> and stored epoch \<open>E\<close>, let the dataloader yield no batch in
  epoch \<open>E\<close> (no training step happens), and let epoch \<open>E\<close> be a checkpoint epoch of the
  resumed run. Then the first checkpoint the run serializes holds exactly \<open>m\<close>, \<open>opt\<close>,
  \<open>s\<close> and \<open>E\<close>: its optimizer and scheduler state (and model state and epoch) are
  those of \<open>ck\<close>.
\<close>

theorem resume_then_checkpoint_same_state:
  assumes "resume (args self)" and "checkpoint_file env = Some ck"
    and "load_state_dicts ck = Inr (m, opt, s)" and "stored_epoch ck = Inr E"
    and "dataloader env E = []"
    and "val_interval (args self) \<noteq> 0" and "val_interval (args self) dvd E + 1"
    and "E < epochs (args self)"
  shows "\<exists>st c f rest.
           train L env self = Inr st \<and>
           checkpoints_saved (trace st) = (c, f) # rest \<and>
           c = [(''model_state_dict'', ModelState m),
                (''optimizer_state_dict'', OptimizerState opt),
                (''scheduler_state_dict'', SchedulerState s),
                (''epoch'', EpochIndex E)] \<and>
           map_of c ''optimizer_state_dict'' = map_of ck ''optimizer_state_dict'' \<and>
           map_of c ''scheduler_state_dict'' = map_of ck ''scheduler_state_dict'' \<and>
           map_of c ''model_state_dict'' = map_of ck ''model_state_dict'' \<and>
           map_of c ''epoch'' = map_of ck ''epoch''"
proof -
  let ?c = "[(''model_state_dict'', ModelState m),
                (''optimizer_state_dict'', OptimizerState opt),
                (''scheduler_state_dict'', SchedulerState s),
                (''epoch'', EpochIndex E)]"
  let ?f = "path_join (checkpoint_dir self) [str_int E @ ''-checkpoint.pth'']"
  let ?st0 = "\<lparr>trainer_obj = self, network = m, optimizer = opt, scheduler = s, trace = []\<rparr>
               :: ('a, 'b, 'c, 'e) run_state"
  have u: "train L env self = train_loop L env [E..epochs (args self) - 1] ?st0"
    using train_unfold[of self env ck m opt s E L] assms(1-4) by simp
  have r: "[E..epochs (args self) - 1] = E # [E + 1..epochs (args self) - 1]"
    using assms(8) by (simp add: upto_rec1)
  have vi: "val_interval (args (trainer_obj ?st0)) \<noteq> 0" using assms(6) by simp
  have md: "(E + 1) mod val_interval (args self) = 0"
    using assms(7) by (simp add: mod_eq_0_iff_dvd)
  from train_epoch_props[OF vi, of L env E] obtain st' st1 logs where
    ep: "train_epoch L env ?st0 E = Inr st'"
    and st1: "st1 = train_batches L (is_main_process env) E (dataloader env E)
              (?st0\<lparr>trace := trace ?st0 @ [EpochBegin E]\<rparr>)"
    and tr: "trace st' = trace ?st0 @ [EpochBegin E] @ logs @
        (if (E + 1) mod val_interval (args (trainer_obj ?st0)) = 0
         then SaveOnMaster (make_checkpoint st1 E)
                (path_join (checkpoint_dir (trainer_obj ?st0)) [str_int E @ ''-checkpoint.pth''])
              # (if distributed (args (trainer_obj ?st0)) then [Barrier, Barrier] else [])
         else [])"
    and logs: "list_all is_metric_log logs"
    and inv: "args (trainer_obj st') = args (trainer_obj ?st0)"
    by blast
  have c: "make_checkpoint st1 E = ?c"
    by (simp add: st1 assms(5) make_checkpoint_def)
  have tr': "checkpoints_saved (trace st') = [(?c, ?f)]"
    using checkpoints_saved_logs[OF logs]
    by (simp add: tr md c checkpoints_saved_append) (simp add: checkpoints_saved_def)
  have "val_interval (args (trainer_obj st')) \<noteq> 0" using inv assms(6) by simp
  from train_loop_props[OF this, of L env "[E + 1..epochs (args self) - 1]"]
  obtain st'' suffix where
    rest: "train_loop L env [E + 1..epochs (args self) - 1] st' = Inr st''"
      "trace st'' = trace st' @ suffix"
    by blast
  have "train L env self = Inr st''"
    by (simp add: u r ep rest(1) bnd_Inr)
  moreover have "checkpoints_saved (trace st'') = (?c, ?f) # checkpoints_saved suffix"
    by (simp add: rest(2) checkpoints_saved_append tr')
  moreover have "map_of ?c ''optimizer_state_dict'' = map_of ck ''optimizer_state_dict''"
    "map_of ?c ''scheduler_state_dict'' = map_of ck ''scheduler_state_dict''"
    "map_of ?c ''model_state_dict'' = map_of ck ''model_state_dict''"
    "map_of ?c ''epoch'' = map_of ck ''epoch''"
    using load_state_dicts_entries[OF assms(3)] stored_epoch_entry[OF assms(4)] by simp_all
  ultimately show ?thesis
    by (intro exI[of _ st''] exI[of _ ?c] exI[of _ ?f] exI[of _ "checkpoints_saved suffix"])
       simp
qed

theorem resume_then_checkpoint_same_state_witness:
  "\<exists>st f rest.
     train sample_learner (sample_env True [] (Some (sample_checkpoint 1)))
       (Trainer_init (sample_args False True 3 2) 7) = Inr st \<and>
     checkpoints_saved (trace st) = (sample_checkpoint 1, f) # rest"
  using resume_then_checkpoint_same_state
    [of "Trainer_init (sample_args False True 3 2) 7"
       "sample_env True [] (Some (sample_checkpoint 1))" "sample_checkpoint 1" 1 2 3 1
       sample_learner]
  by (auto simp: Trainer_init_fields sample_args_def sample_env_def sample_checkpoint_def
      load_state_dicts_def stored_epoch_def checkpoint_get_def bnd_def)



section \<open>Properties of the barrier synchronisation\<close>

lemma barriers_passed_0: "barriers_passed tr 0 = 0"
  by (simp add: barriers_passed_def)

lemma barriers_passed_Suc:
  "n < length tr \<Longrightarrow>
   barriers_passed tr (Suc n) = barriers_passed tr n + (if tr ! n = Barrier then 1 else 0)"
  by (simp add: barriers_passed_def take_Suc_conv_app_nth)

lemma barriers_passed_mono: "n \<le> n' \<Longrightarrow> barriers_passed tr n \<le> barriers_passed tr n'"
proof -
  assume "n \<le> n'"
  then have "take n' tr = take n tr @ take (n' - n) (drop n tr)"
    by (metis le_add_diff_inverse take_add)
  then show ?thesis by (simp add: barriers_passed_def)
qed

lemma in_step_init: "in_step world (replicate (length world) 0)"
  by (simp add: in_step_def barriers_passed_0)

lemma in_step_advance:
  assumes "in_step world pos"
  shows "in_step world (advance world pos p)"
proof -
  from assms have len: "length pos = length world"
    and bound: "\<And>r. r < length world \<Longrightarrow> pos ! r \<le> length (world ! r)"
    and eq: "\<And>r q. r < length world \<Longrightarrow> q < length world \<Longrightarrow>
        barriers_passed (world ! r) (pos ! r) = barriers_passed (world ! q) (pos ! q)"
    unfolding in_step_def by blast+
  consider (idle) "advance world pos p = pos"
    | (sync) "list_all2 at_barrier world pos" "advance world pos p = map Suc pos"
    | (local) "p < length world" "pos ! p < length (world ! p)"
        "world ! p ! (pos ! p) \<noteq> Barrier" "advance world pos p = pos[p := Suc (pos ! p)]"
    unfolding advance_def by (cases "p < length world \<and> pos ! p < length (world ! p)";
      cases "world ! p ! (pos ! p) = Barrier"; cases "list_all2 at_barrier world pos") simp_all
  then show ?thesis
  proof cases
    case idle
    with assms show ?thesis by simp
  next
    case sync
    have at: "pos ! r < length (world ! r) \<and> world ! r ! (pos ! r) = Barrier"
      if "r < length world" for r
      using sync(1) that by (simp add: list_all2_conv_all_nth at_barrier_def)
    have nth: "map Suc pos ! r = Suc (pos ! r)" if "r < length world" for r
      using that len by simp
    have inc: "barriers_passed (world ! r) (Suc (pos ! r))
            = barriers_passed (world ! r) (pos ! r) + 1" if "r < length world" for r
      using at[OF that] by (simp add: barriers_passed_Suc)
    have "length (map Suc pos) = length world" using len by simp
    moreover have "\<forall>r<length world. map Suc pos ! r \<le> length (world ! r)"
    proof (intro allI impI)
      fix r assume r: "r < length world"
      from at[OF r] show "map Suc pos ! r \<le> length (world ! r)"
        unfolding nth[OF r] by simp
    qed
    moreover have "\<forall>r<length world. \<forall>q<length world.
        barriers_passed (world ! r) (map Suc pos ! r)
          = barriers_passed (world ! q) (map Suc pos ! q)"
    proof (intro allI impI)
      fix r q assume r: "r < length world" and q: "q < length world"
      show "barriers_passed (world ! r) (map Suc pos ! r)
          = barriers_passed (world ! q) (map Suc pos ! q)"
        unfolding nth[OF r] nth[OF q] inc[OF r] inc[OF q] eq[OF r q] ..
    qed
    ultimately show ?thesis unfolding sync(2) in_step_def by blast
  next
    case local
    have same: "barriers_passed (world ! p) (Suc (pos ! p)) = barriers_passed (world ! p) (pos ! p)"
      using local(2,3) by (simp add: barriers_passed_Suc)
    let ?pos = "pos[p := Suc (pos ! p)]"
    have nth_p: "?pos ! p = Suc (pos ! p)" using local(1) len by simp
    have nth_o: "?pos ! r = pos ! r" if "r \<noteq> p" for r using that by simp
    have pass: "barriers_passed (world ! r) (?pos ! r) = barriers_passed (world ! r) (pos ! r)"
      if "r < length world" for r
    proof (cases "r = p")
      case True
      show ?thesis unfolding True nth_p same by (rule refl)
    next
      case False
      then show ?thesis by (simp add: nth_o)
    qed
    have "length ?pos = length world" using len by simp
    moreover have "\<forall>r<length world. ?pos ! r \<le> length (world ! r)"
    proof (intro allI impI)
      fix r assume r: "r < length world"
      show "?pos ! r \<le> length (world ! r)"
      proof (cases "r = p")
        case True
        then show ?thesis using local(2) nth_p by simp
      next
        case False
        then show ?thesis using bound[OF r] by (simp add: nth_o)
      qed
    qed
    moreover have "\<forall>r<length world. \<forall>q<length world.
        barriers_passed (world ! r) (?pos ! r) = barriers_passed (world ! q) (?pos ! q)"
    proof (intro allI impI)
      fix r q assume r: "r < length world" and q: "q < length world"
      show "barriers_passed (world ! r) (?pos ! r) = barriers_passed (world ! q) (?pos ! q)"
        unfolding pass[OF r] pass[OF q] by (rule eq[OF r q])
    qed
    ultimately show ?thesis unfolding local(4) in_step_def by blast
  qed
qed

lemma in_step_run:
  "in_step world pos \<Longrightarrow> in_step world (run_schedule world schedule pos)"
proof (induction schedule arbitrary: pos)
  case Nil
  then show ?case by simp
next
  case (Cons p schedule)
  from Cons.IH[OF in_step_advance[OF Cons.prems]] show ?case by simp
qed

lemma passed_performed:
  assumes "in_step world pos" "p < length world" "q < length world"
    and "barriers_passed (world ! q) i < barriers_passed (world ! p) (pos ! p)"
  shows "i < pos ! q"
proof (rule ccontr)
  assume "\<not> i < pos ! q"
  then have "pos ! q \<le> i" by simp
  from barriers_passed_mono[OF this, of "world ! q"]
  have "barriers_passed (world ! q) (pos ! q) \<le> barriers_passed (world ! q) i" .
  moreover from assms(1-3) have
    "barriers_passed (world ! p) (pos ! p) = barriers_passed (world ! q) (pos ! q)"
    unfolding in_step_def by blast
  ultimately show False using assms(4) by simp
qed

lemma train_loop_segments:
  assumes "val_interval (args (trainer_obj st)) \<noteq> 0"
  shows "\<exists>st' segs.
      train_loop L env es st = Inr st' \<and>
      trace st' = trace st @ concat segs \<and>
      list_all2 (epoch_segment (distributed (args (trainer_obj st)))
                   (val_interval (args (trainer_obj st))) (is_main_process env)) es segs"
  using assms
proof (induction es arbitrary: st)
  case Nil
  then show ?case by simp
next
  case (Cons e es)
  let ?dist = "distributed (args (trainer_obj st))"
  let ?vi = "val_interval (args (trainer_obj st))"
  from train_epoch_props[OF Cons.prems, of L env e]
  obtain st' st1 logs where
    ep: "train_epoch L env st e = Inr st'"
    and st1: "st1 = train_batches L (is_main_process env) e (dataloader env e)
              (st\<lparr>trace := trace st @ [EpochBegin e]\<rparr>)"
    and tr: "trace st' = trace st @ [EpochBegin e] @ logs @
        (if (e + 1) mod ?vi = 0
         then SaveOnMaster (make_checkpoint st1 e)
                (path_join (checkpoint_dir (trainer_obj st)) [str_int e @ ''-checkpoint.pth''])
              # (if ?dist then [Barrier, Barrier] else [])
         else [])"
    and logs: "list_all is_metric_log logs" "\<not> is_main_process env \<longrightarrow> logs = []"
    and inv: "args (trainer_obj st') = args (trainer_obj st)"
    by blast
  define seg where "seg = EpochBegin e # logs @
        (if (e + 1) mod ?vi = 0
         then SaveOnMaster (make_checkpoint st1 e)
                (path_join (checkpoint_dir (trainer_obj st)) [str_int e @ ''-checkpoint.pth''])
              # (if ?dist then [Barrier, Barrier] else [])
         else [])"
  have tr': "trace st' = trace st @ seg" using tr by (simp add: seg_def)
  have seg: "epoch_segment ?dist ?vi (is_main_process env) e seg"
  proof (cases "?vi dvd e + 1")
    case True
    then have m: "(e + 1) mod ?vi = 0" by (simp add: mod_eq_0_iff_dvd)
    have c: "map_of (make_checkpoint st1 e) ''epoch'' = Some (EpochIndex e)"
      by (simp add: make_checkpoint_def)
    show ?thesis
      unfolding epoch_segment_def seg_def
      by (rule exI[of _ logs],
          rule exI[of _ "SaveOnMaster (make_checkpoint st1 e)
                (path_join (checkpoint_dir (trainer_obj st)) [str_int e @ ''-checkpoint.pth''])
              # (if ?dist then [Barrier, Barrier] else [])"])
         (use True m c logs in auto)
  next
    case False
    then have m: "(e + 1) mod ?vi \<noteq> 0" by (simp add: mod_eq_0_iff_dvd)
    show ?thesis
      unfolding epoch_segment_def seg_def
      by (rule exI[of _ logs], rule exI[of _ "[]"]) (use False m logs in auto)
  qed
  have "val_interval (args (trainer_obj st')) \<noteq> 0" using Cons.prems inv by simp
  from Cons.IH[OF this] obtain st'' segs where
    rest: "train_loop L env es st' = Inr st''"
      "trace st'' = trace st' @ concat segs"
      "list_all2 (epoch_segment (distributed (args (trainer_obj st')))
                   (val_interval (args (trainer_obj st'))) (is_main_process env)) es segs"
    by blast
  have "train_loop L env (e # es) st = Inr st''"
    by (simp add: ep rest(1) bnd_Inr)
  moreover have "trace st'' = trace st @ concat (seg # segs)"
    by (simp add: rest(2) tr')
  moreover have "list_all2 (epoch_segment ?dist ?vi (is_main_process env)) (e # es) (seg # segs)"
    using seg rest(3) inv by simp
  ultimately show ?case by blast
qed

lemma metric_logs_no_barrier:
  "list_all is_metric_log logs \<Longrightarrow> filter (\<lambda>ev. ev = Barrier) logs = []"
  by (induction logs) auto

lemma segment_barriers:
  assumes "epoch_segment True interval is_main e seg"
  shows "length (filter (\<lambda>ev. ev = Barrier) seg) = (if interval dvd e + 1 then 2 else 0)"
proof -
  from assms[unfolded epoch_segment_def] obtain logs tail where
    s: "seg = EpochBegin e # logs @ tail" "list_all is_metric_log logs"
      "if interval dvd e + 1
         then \<exists>c f. map_of c ''epoch'' = Some (EpochIndex e) \<and>
                tail = SaveOnMaster c f # (if True then [Barrier, Barrier] else [])
         else tail = []"
    by (elim exE conjE) (rule that; assumption)
  show ?thesis
  proof (cases "interval dvd e + 1")
    case True
    with s(3) have "\<exists>c f. map_of c ''epoch'' = Some (EpochIndex e) \<and>
                tail = SaveOnMaster c f # (if True then [Barrier, Barrier] else [])"
      by (simp only: if_True)
    then obtain c f where "tail = SaveOnMaster c f # [Barrier, Barrier]"
      by (elim exE conjE) simp
    with True show ?thesis
      by (simp add: s(1) metric_logs_no_barrier[OF s(2)])
  next
    case False
    with s(3) have "tail = []" by (simp only: if_False)
    with False show ?thesis
      by (simp add: s(1) metric_logs_no_barrier[OF s(2)])
  qed
qed

lemma segments_barriers:
  "list_all2 (epoch_segment True interval is_main) es segs \<Longrightarrow>
   length (filter (\<lambda>ev. ev = Barrier) (concat segs))
     = 2 * length (filter (\<lambda>e. interval dvd e + 1) es)"
proof (induction es segs rule: list_all2_induct)
  case Nil
  then show ?case by simp
next
  case (Cons e es seg segs)
  from segment_barriers[OF Cons.hyps(1)] Cons.IH show ?case by simp
qed

lemma barriers_passed_prefix:
  "barriers_passed (xs @ ys) (length xs) = length (filter (\<lambda>ev. ev = Barrier) xs)"
  by (simp add: barriers_passed_def)

lemma save_position:
  assumes "list_all2 (epoch_segment True interval is_main) (es1 @ e # es2) segs"
    and "interval dvd e + 1"
  shows "\<exists>pre logs c f post.
           concat segs = pre @ EpochBegin e # logs @ SaveOnMaster c f # Barrier # Barrier # post \<and>
           list_all is_metric_log logs \<and>
           map_of c ''epoch'' = Some (EpochIndex e) \<and>
           barriers_passed (concat segs) (length (pre @ EpochBegin e # logs))
             = 2 * length (filter (\<lambda>e. interval dvd e + 1) es1)"
proof -
  from assms(1) obtain us vs where
    uv: "segs = us @ vs" "list_all2 (epoch_segment True interval is_main) es1 us"
      "list_all2 (epoch_segment True interval is_main) (e # es2) vs"
    unfolding list_all2_append1 by (elim exE conjE) (rule that; assumption)
  from uv(3) obtain seg ws where
    sw: "vs = seg # ws" "epoch_segment True interval is_main e seg"
    unfolding list_all2_Cons1 by (elim exE conjE) (rule that; assumption)
  from sw(2)[unfolded epoch_segment_def] obtain logs tail where
    s: "seg = EpochBegin e # logs @ tail" "list_all is_metric_log logs"
      "if interval dvd e + 1
         then \<exists>c f. map_of c ''epoch'' = Some (EpochIndex e) \<and>
                tail = SaveOnMaster c f # (if True then [Barrier, Barrier] else [])
         else tail = []"
    by (elim exE conjE) (rule that; assumption)
  from s(3) assms(2) have "\<exists>c f. map_of c ''epoch'' = Some (EpochIndex e) \<and>
                tail = SaveOnMaster c f # (if True then [Barrier, Barrier] else [])"
    by (simp only: if_True)
  then obtain c f where c: "map_of c ''epoch'' = Some (EpochIndex e)"
    and t: "tail = [SaveOnMaster c f, Barrier, Barrier]"
    by (elim exE conjE) simp
  let ?pre = "concat us"
  let ?post = "concat ws"
  have cc: "concat segs = (?pre @ EpochBegin e # logs) @ SaveOnMaster c f # Barrier # Barrier # ?post"
    by (simp add: uv(1) sw(1) s(1) t)
  have "barriers_passed (concat segs) (length (?pre @ EpochBegin e # logs))
          = length (filter (\<lambda>ev. ev = Barrier) (?pre @ EpochBegin e # logs))"
    unfolding cc by (rule barriers_passed_prefix)
  also have "\<dots> = length (filter (\<lambda>ev. ev = Barrier) ?pre)"
    by (simp add: metric_logs_no_barrier[OF s(2)])
  also have "\<dots> = 2 * length (filter (\<lambda>e. interval dvd e + 1) es1)"
    by (rule segments_barriers[OF uv(2)])
  finally have bp: "barriers_passed (concat segs) (length (?pre @ EpochBegin e # logs))
          = 2 * length (filter (\<lambda>e. interval dvd e + 1) es1)" .
  have cc': "concat segs = ?pre @ EpochBegin e # logs @ SaveOnMaster c f # Barrier # Barrier # ?post"
    using cc by simp
  from cc' s(2) c bp show ?thesis by blast
qed

lemma checkpoint_writes_not_main: "checkpoint_writes False tr = []"
  by (induction tr) (auto simp: checkpoint_writes_def save_on_master_def split: event.splits)

lemma train_segments:
  assumes "val_interval (args self) \<noteq> 0"
    and "resume (args self) \<longrightarrow>
           checkpoint_file env = Some ck \<and> load_state_dicts ck = Inr w \<and>
           stored_epoch ck = Inr E"
  shows "\<exists>st segs. train L env self = Inr st \<and>
           trace st = concat segs \<and>
           list_all2 (epoch_segment (distributed (args self)) (val_interval (args self))
                        (is_main_process env))
             [(if resume (args self) then E else 0)..epochs (args self) - 1] segs"
proof -
  define start where "start = (if resume (args self) then E else 0)"
  obtain m opt s where u: "train L env self =
           train_loop L env [start..epochs (args self) - 1]
             \<lparr>trainer_obj = self, network = m, optimizer = opt, scheduler = s, trace = []\<rparr>"
  proof (cases "resume (args self)")
    case True
    obtain m opt s where "w = (m, opt, s)" by (cases w)
    with True assms(2) train_unfold[of self env ck m opt s start L] that show ?thesis
      by (simp add: start_def)
  next
    case False
    obtain opt s where "new_scheduler L (new_optimizer L (new_network L)) = (opt, s)"
      by (cases "new_scheduler L (new_optimizer L (new_network L))")
    with False train_unfold[of self env ck "new_network L" opt s start L] that show ?thesis
      by (simp add: start_def)
  qed
  let ?st = "\<lparr>trainer_obj = self, network = m, optimizer = opt, scheduler = s, trace = []\<rparr>
               :: ('a, 'b, 'c, 'e) run_state"
  have "val_interval (args (trainer_obj ?st)) \<noteq> 0" using assms(1) by simp
  from train_loop_segments[OF this, of L env "[start..epochs (args self) - 1]"]
  show ?thesis unfolding u start_def[symmetric] by simp
qed

text \<open>
  C4, as the code has it. In distributed mode, with \<open>val_interval\<close> non-zero (and a
  readable checkpoint when resuming), every process of the group runs \<open>train\<close> to its
  end, and its trace is the concatenation, over the epochs \<open>e\<close> of the run, of: the entry
  into epoch \<open>e\<close>, the metric logs of its batches (none in a process that is not the main
  process) and, exactly when \<open>e + 1\<close> is a multiple of \<open>val_interval\<close>, the call of
  \<open>save_on_master\<close> followed by two barrier calls. So the processes meet at a barrier at
  the end of the checkpoint epochs only. A process that is not the main process logs no
  metric and writes no checkpoint. Under every schedule, once any process has passed the
  first barrier of a checkpoint epoch \<open>e\<close> (it has passed more barriers than the two of
  each earlier checkpoint epoch of the run), every process, the main process among them, has
  performed its metric logging of epoch \<open>e\<close> and its call of \<open>save_on_master\<close> for epoch
  \<open>e\<close>.
\<close>

theorem barrier_only_at_checkpoint_epochs:
  assumes "distributed (args self)" and "val_interval (args self) \<noteq> 0"
    and "\<forall>env \<in> set envs. resume (args self) \<longrightarrow>
           checkpoint_file env = Some ck \<and> load_state_dicts ck = Inr w \<and>
           stored_epoch ck = Inr E"
  shows "\<exists>sts.
      list_all2 (\<lambda>env st. train L env self = Inr st) envs sts \<and>
      (\<forall>n<length envs. \<exists>segs.
          trace (sts ! n) = concat segs \<and>
          list_all2 (epoch_segment True (val_interval (args self)) (is_main_process (envs ! n)))
            [(if resume (args self) then E else 0)..epochs (args self) - 1] segs) \<and>
      (\<forall>n<length envs. \<not> is_main_process (envs ! n) \<longrightarrow>
          filter is_metric_log (trace (sts ! n)) = [] \<and>
          checkpoint_writes (is_main_process (envs ! n)) (trace (sts ! n)) = []) \<and>
      (\<forall>schedule p q e.
          p < length envs \<longrightarrow> q < length envs \<longrightarrow>
          (if resume (args self) then E else 0) \<le> e \<longrightarrow> e < epochs (args self) \<longrightarrow>
          val_interval (args self) dvd e + 1 \<longrightarrow>
          2 * length (filter (\<lambda>e'. val_interval (args self) dvd e' + 1)
                        [(if resume (args self) then E else 0)..e - 1])
            < barriers_passed (trace (sts ! p))
                (run_schedule (map trace sts) schedule (replicate (length envs) 0) ! p) \<longrightarrow>
          (\<exists>pre logs c f post.
              trace (sts ! q)
                = pre @ EpochBegin e # logs @ SaveOnMaster c f # Barrier # Barrier # post \<and>
              list_all is_metric_log logs \<and>
              map_of c ''epoch'' = Some (EpochIndex e) \<and>
              length (pre @ EpochBegin e # logs)
                < run_schedule (map trace sts) schedule (replicate (length envs) 0) ! q))"
proof -
  define start where "start = (if resume (args self) then E else 0)"
  define vi where "vi = val_interval (args self)"
  define sts where "sts = map (\<lambda>env. projr (train L env self)) envs"
  have len: "length sts = length envs" by (simp add: sts_def)
  have wf: "resume (args self) \<longrightarrow>
           checkpoint_file (envs ! n) = Some ck \<and> load_state_dicts ck = Inr w \<and>
           stored_epoch ck = Inr E" if "n < length envs" for n
    using assms(3) that by (meson nth_mem)
  have segs: "\<exists>segs. train L (envs ! n) self = Inr (sts ! n) \<and>
          trace (sts ! n) = concat segs \<and>
          list_all2 (epoch_segment True vi (is_main_process (envs ! n)))
            [start..epochs (args self) - 1] segs" if "n < length envs" for n
  proof -
    from train_segments[OF assms(2) wf[OF that], of L] obtain st segs where
      s: "train L (envs ! n) self = Inr st" "trace st = concat segs"
        "list_all2 (epoch_segment (distributed (args self)) (val_interval (args self))
                        (is_main_process (envs ! n)))
             [(if resume (args self) then E else 0)..epochs (args self) - 1] segs"
      by (elim exE conjE) (rule that; assumption)
    have "sts ! n = st" using that s(1) by (simp add: sts_def)
    with s assms(1) show ?thesis unfolding start_def vi_def by auto
  qed
  have runs: "list_all2 (\<lambda>env st. train L env self = Inr st) envs sts"
    unfolding list_all2_conv_all_nth using len segs by auto
  have shape: "\<forall>n<length envs. \<exists>segs.
          trace (sts ! n) = concat segs \<and>
          list_all2 (epoch_segment True vi (is_main_process (envs ! n)))
            [start..epochs (args self) - 1] segs"
    using segs by blast
  have quiet: "\<forall>n<length envs. \<not> is_main_process (envs ! n) \<longrightarrow>
          filter is_metric_log (trace (sts ! n)) = [] \<and>
          checkpoint_writes (is_main_process (envs ! n)) (trace (sts ! n)) = []"
  proof (intro allI impI)
    fix n assume n: "n < length envs" and nm: "\<not> is_main_process (envs ! n)"
    from train_returns[OF assms(2) wf[OF n], of L] obtain st where
      s: "train L (envs ! n) self = Inr st"
        "\<not> is_main_process (envs ! n) \<longrightarrow> filter is_metric_log (trace st) = []"
      by (elim exE conjE) (rule that; assumption)
    have "sts ! n = st" using n s(1) by (simp add: sts_def)
    with s(2) nm show "filter is_metric_log (trace (sts ! n)) = [] \<and>
          checkpoint_writes (is_main_process (envs ! n)) (trace (sts ! n)) = []"
      by (simp add: checkpoint_writes_not_main)
  qed
  have order: "\<exists>pre logs c f post.
              trace (sts ! q)
                = pre @ EpochBegin e # logs @ SaveOnMaster c f # Barrier # Barrier # post \<and>
              list_all is_metric_log logs \<and>
              map_of c ''epoch'' = Some (EpochIndex e) \<and>
              length (pre @ EpochBegin e # logs)
                < run_schedule (map trace sts) schedule (replicate (length envs) 0) ! q"
    if p: "p < length envs" and q: "q < length envs"
      and e: "start \<le> e" "e < epochs (args self)" "vi dvd e + 1"
      and passed: "2 * length (filter (\<lambda>e'. vi dvd e' + 1) [start..e - 1])
            < barriers_passed (trace (sts ! p))
                (run_schedule (map trace sts) schedule (replicate (length envs) 0) ! p)"
    for schedule p q e
  proof -
    let ?world = "map trace sts"
    let ?pos = "run_schedule ?world schedule (replicate (length envs) 0)"
    have lw: "length ?world = length envs" using len by simp
    have inv: "in_step ?world ?pos"
      using in_step_run[OF in_step_init[of ?world], of schedule] by (simp add: len)
    from segs[OF q] obtain segs where
      sq: "trace (sts ! q) = concat segs"
        "list_all2 (epoch_segment True vi (is_main_process (envs ! q)))
            [start..epochs (args self) - 1] segs"
      by (elim exE conjE) (rule that; assumption)
    have split: "[start..epochs (args self) - 1]
                   = [start..e - 1] @ e # [e + 1..epochs (args self) - 1]"
    proof -
      have "[start..epochs (args self) - 1] = [start..e - 1] @ [e..epochs (args self) - 1]"
        using e(1,2) by (intro upto_split1) simp_all
      also have "[e..epochs (args self) - 1] = e # [e + 1..epochs (args self) - 1]"
        using e(2) by (simp add: upto_rec1)
      finally show ?thesis .
    qed
    from save_position[OF sq(2)[unfolded split] e(3)] obtain pre logs c f post where
      sp: "concat segs = pre @ EpochBegin e # logs @ SaveOnMaster c f # Barrier # Barrier # post"
        "list_all is_metric_log logs" "map_of c ''epoch'' = Some (EpochIndex e)"
        "barriers_passed (concat segs) (length (pre @ EpochBegin e # logs))
             = 2 * length (filter (\<lambda>e. vi dvd e + 1) [start..e - 1])"
      by (elim exE conjE) (rule that; assumption)
    have wp: "?world ! p = trace (sts ! p)" and wq: "?world ! q = trace (sts ! q)"
      using p q len by simp_all
    have "barriers_passed (?world ! q) (length (pre @ EpochBegin e # logs))
            < barriers_passed (?world ! p) (?pos ! p)"
      unfolding wp wq sq(1) sp(4) by (rule passed)
    from passed_performed[OF inv _ _ this] p q lw
    have "length (pre @ EpochBegin e # logs) < ?pos ! q" by simp
    with sp(1-3) sq(1) show ?thesis by metis
  qed
  show ?thesis
    unfolding start_def[symmetric] vi_def[symmetric]
    by (rule exI[of _ sts]) (use runs shape quiet order in blast)
qed

lemmas sample_defs = sample_learner_def sample_env_def sample_args_def Trainer_init_def
  make_log_dir_def train_def train_epoch_def make_checkpoint_def py_range_def bnd_def Let_def
  str_nat.simps str_int_def digit_char_def upto.simps

theorem barrier_only_at_checkpoint_epochs_witness:
  "map_sum id trace
     (train sample_learner (sample_env True [5] None)
        (Trainer_init (sample_args True False 2 2) 7)) = Inr sample_main_trace \<and>
   map_sum id trace
     (train sample_learner (sample_env False [5] None)
        (Trainer_init (sample_args True False 2 2) 7)) = Inr sample_other_trace \<and>
   run_schedule [sample_main_trace, sample_other_trace] [1, 1, 1, 1, 1] [0, 0] = [0, 3] \<and>
   run_schedule [sample_main_trace, sample_other_trace]
     [1, 1, 1, 1, 0, 0, 0, 0, 0, 0, 0, 0, 0, 1] [0, 0] = [10, 4]"
  using barrier_only_at_checkpoint_epochs
    [of "Trainer_init (sample_args True False 2 2) 7"
       "[sample_env True [5] None, sample_env False [5] None]" "[]" "(0, 0, 0)" 0
       sample_learner]
  by (simp add: sample_defs sample_main_trace_def sample_other_trace_def advance_def
      at_barrier_def)

text \<open>
  C4 as stated fails: in a distributed run of two epochs with \<open>val_interval\<close> 2, the main
  process goes from epoch 0 into epoch 1 without a barrier call; the only barrier calls
  follow the checkpoint of epoch 1.
\<close>

theorem no_barrier_at_epoch_boundary:
  "map_sum id trace
     (train sample_learner (sample_env True [5] None)
        (Trainer_init (sample_args True False 2 2) 7))
   = Inr [EpochBegin 0,
          AddScalar ''loss_ce'' 0 (Measured 5),
          AddScalar ''epoch'' 0 (EpochNumber 0),
          AddScalar ''lr'' 0 (Measured 11),
          EpochBegin 1,
          AddScalar ''loss_ce'' 1 (Measured 5),
          AddScalar ''epoch'' 1 (EpochNumber 1),
          AddScalar ''lr'' 1 (Measured 12),
          SaveOnMaster
            [(''model_state_dict'', ModelState 10),
             (''optimizer_state_dict'', OptimizerState 12),
             (''scheduler_state_dict'', SchedulerState 101),
             (''epoch'', EpochIndex 1)] ''logs/7/1-checkpoint.pth'',
          Barrier, Barrier]"
  by (simp add: sample_defs)

end
